theory Spec2Isabelle
  imports Complex_Main "HOL-Library.Char_ord" "HOL-Library.List_Lexorder"
begin

section \<open>Data model\<close>

text \<open>
  The store holds the documents of the four Mongoose models: Category and Review
  (src/planetsupercell-backend/models/Review.js holds both files), Order
  (src/unnamed/part_006) and Product (src/unnamed/part_007). A collection is the list of
  its documents; MongoDB keeps the \<^verbatim>\<open>_id\<close> of a collection's documents distinct. An ObjectId is a value of a type of its own;
  a JavaScript Number is idealised as a rational (no rounding, no NaN, no Infinity).
  Fields that no modelled operation reads or writes (timestamps, Product.user,
  Product.rating, Product.numReviews, Category.image, Category.description) are left out.
\<close>

datatype oid = ObjectId nat

record category =
  c_id :: oid
  c_name :: string
  c_parentId :: "oid option"

record product =
  p_id :: oid
  p_name :: string
  p_categoryId :: oid
  p_description :: string
  p_image :: string
  p_price :: rat
  p_oldPrice :: "rat option"
  p_stock :: rat

text \<open>OrderItemSchema: the frozen snapshot of one line of an order.\<close>

record order_item =
  i_productId :: oid
  i_name :: string
  i_quantity :: rat
  i_price :: rat
  i_image :: string

record order =
  o_id :: oid
  o_user :: oid
  o_items :: "order_item list"
  o_totalAmount :: rat
  o_status :: string
  o_screenshotPath :: "string option"
  o_reviewSubmitted :: bool

record review =
  r_id :: oid
  r_user :: oid
  r_authorName :: string
  r_product :: oid
  r_order :: oid
  r_rating :: rat
  r_text :: string

record db =
  categories :: "category list"
  products :: "product list"
  orders :: "order list"
  reviews :: "review list"

section \<open>Store primitives\<close>

text \<open>\<^verbatim>\<open>Model.findById(id)\<close>: the first document with that \<^verbatim>\<open>_id\<close>.\<close>

definition findById :: "('a \<Rightarrow> oid) \<Rightarrow> 'a list \<Rightarrow> oid \<Rightarrow> 'a option" where
  "findById idf docs k = find (\<lambda>d. idf d = k) docs"

text \<open>
  \<^verbatim>\<open>Product.findByIdAndUpdate(id, { $inc: { stock: d } })\<close>: adds \<open>d\<close> to the stock of the
  first product with that id; no document is touched when none has it. Update validators
  are off (the call passes no \<^verbatim>\<open>runValidators\<close>), so the schema's \<^verbatim>\<open>min: 0\<close> is not checked.
\<close>

fun findByIdAndUpdate_incStock :: "oid \<Rightarrow> rat \<Rightarrow> product list \<Rightarrow> product list" where
  "findByIdAndUpdate_incStock k d [] = []"
| "findByIdAndUpdate_incStock k d (p # ps) =
     (if p_id p = k then p\<lparr>p_stock := p_stock p + d\<rparr> # ps
      else p # findByIdAndUpdate_incStock k d ps)"

text \<open>\<^verbatim>\<open>doc.save()\<close> of a document read from the store: it replaces the stored one.\<close>

fun saveOrder :: "order \<Rightarrow> order list \<Rightarrow> order list" where
  "saveOrder x [] = []"
| "saveOrder x (y # ys) = (if o_id y = o_id x then x # ys else y # saveOrder x ys)"

section \<open>controllers/orderController.js\<close>

text \<open>src/planetsupercell-backend/controllers/orderController.js\<close>

subsection \<open>createOrder\<close>

record item_request =
  req_productId :: oid
  req_quantity :: rat

datatype order_response =
    EmptyCart
  | ProductNotFound oid
  | InsufficientStock oid rat
  | OrderValidationError
  | OrderCreated order

text \<open>
  \<^verbatim>\<open>new Map(productsFromDB.map(p => [p._id.toString(), p]))\<close>: a later entry replaces an
  earlier one with the same key.
\<close>

definition productMap :: "product list \<Rightarrow> (oid \<rightharpoonup> product)" where
  "productMap ps = map_of (rev (map (\<lambda>p. (p_id p, p)) ps))"

text \<open>
  The first loop of createOrder (lines 35-61), with its two accumulators \<^verbatim>\<open>totalAmount\<close>
  and \<^verbatim>\<open>orderItems\<close>: an unresolved product returns 404, a short one returns 400 with the
  product's id and its stock, otherwise the snapshot is pushed and the total grows.
\<close>

fun validateItems ::
  "(oid \<rightharpoonup> product) \<Rightarrow> item_request list \<Rightarrow> rat \<Rightarrow> order_item list
     \<Rightarrow> order_response + (rat \<times> order_item list)" where
  "validateItems pm [] totalAmount orderItems = Inr (totalAmount, orderItems)"
| "validateItems pm (item # rest) totalAmount orderItems =
     (case pm (req_productId item) of
        None \<Rightarrow> Inl (ProductNotFound (req_productId item))
      | Some product \<Rightarrow>
          if p_stock product < req_quantity item
          then Inl (InsufficientStock (p_id product) (p_stock product))
          else validateItems pm rest
                 (totalAmount + p_price product * req_quantity item)
                 (orderItems @
                   [\<lparr>i_productId = p_id product, i_name = p_name product,
                     i_quantity = req_quantity item, i_price = p_price product,
                     i_image = p_image product\<rparr>]))"

text \<open>The second loop (lines 75-81): one \<^verbatim>\<open>$inc\<close> of \<open>- quantity\<close> per line of the order.\<close>

fun decrementStock :: "order_item list \<Rightarrow> product list \<Rightarrow> product list" where
  "decrementStock [] ps = ps"
| "decrementStock (item # rest) ps =
     decrementStock rest (findByIdAndUpdate_incStock (i_productId item) (- i_quantity item) ps)"

definition validStatuses :: "string list" where
  "validStatuses = [''pending'', ''paid-pending'', ''processing'', ''completed'', ''refunded'']"

text \<open>
  The validators of OrderItemSchema and OrderSchema that \<^verbatim>\<open>order.save()\<close> runs: a required
  name, \<^verbatim>\<open>quantity\<close> at least 1, \<^verbatim>\<open>price\<close> and \<^verbatim>\<open>totalAmount\<close> at least 0, a status of the enum.
\<close>

definition validateOrderItem :: "order_item \<Rightarrow> bool" where
  "validateOrderItem it = (i_name it \<noteq> [] \<and> 1 \<le> i_quantity it \<and> 0 \<le> i_price it)"

definition validateOrder :: "order \<Rightarrow> bool" where
  "validateOrder x =
     (list_all validateOrderItem (o_items x) \<and> 0 \<le> o_totalAmount x
      \<and> o_status x \<in> set validStatuses)"

text \<open>\<^verbatim>\<open>screenshotPath || null\<close>\<close>

fun orNull :: "string option \<Rightarrow> string option" where
  "orNull None = None"
| "orNull (Some []) = None"
| "orNull (Some (c # cs)) = Some (c # cs)"

text \<open>
  createOrder. \<open>newId\<close> is the ObjectId that \<^verbatim>\<open>new Order\<close> generates. A request without
  \<^verbatim>\<open>items\<close> is the empty list. The order is saved after the stock has been decremented, so
  a validation error of \<^verbatim>\<open>order.save()\<close> leaves the decrements in place.
\<close>

definition createOrder ::
  "db \<Rightarrow> oid \<Rightarrow> oid \<Rightarrow> item_request list \<Rightarrow> string option \<Rightarrow> order_response \<times> db" where
  "createOrder d newId userId its screenshotPath =
     (if its = [] then (EmptyCart, d)
      else
        let productIds = map req_productId its;
            productsFromDB = filter (\<lambda>p. p_id p \<in> set productIds) (products d)
        in case validateItems (productMap productsFromDB) its 0 [] of
             Inl failure \<Rightarrow> (failure, d)
           | Inr (totalAmount, orderItems) \<Rightarrow>
               let order = \<lparr>o_id = newId, o_user = userId, o_items = orderItems,
                            o_totalAmount = totalAmount, o_status = ''paid-pending'',
                            o_screenshotPath = orNull screenshotPath,
                            o_reviewSubmitted = False\<rparr>;
                   d1 = d\<lparr>products := decrementStock orderItems (products d)\<rparr>
               in if validateOrder order
                  then (OrderCreated order, d1\<lparr>orders := orders d1 @ [order]\<rparr>)
                  else (OrderValidationError, d1))"

subsection \<open>updateOrderStatus\<close>

datatype status_response =
    InvalidStatus
  | OrderNotFound
  | StatusUpdated order

text \<open>The restock loop (lines 201-209): one \<^verbatim>\<open>$inc\<close> of \<open>quantity\<close> per line of the order.\<close>

fun restock :: "order_item list \<Rightarrow> product list \<Rightarrow> product list" where
  "restock [] ps = ps"
| "restock (item # rest) ps =
     restock rest (findByIdAndUpdate_incStock (i_productId item) (i_quantity item) ps)"

text \<open>
  updateOrderStatus. A request without \<^verbatim>\<open>status\<close> behaves as one whose status is outside
  the list. The stored order passed the schema's validators when it was created and only
  its status changes, to a value of the enum, so \<^verbatim>\<open>order.save()\<close> stores it.
\<close>

definition updateOrderStatus :: "db \<Rightarrow> oid \<Rightarrow> string \<Rightarrow> status_response \<times> db" where
  "updateOrderStatus d orderId newStatus =
     (if newStatus = [] \<or> newStatus \<notin> set validStatuses then (InvalidStatus, d)
      else case findById o_id (orders d) orderId of
             None \<Rightarrow> (OrderNotFound, d)
           | Some order \<Rightarrow>
               let oldStatus = o_status order;
                   d1 = (if newStatus = ''refunded'' \<and> oldStatus \<noteq> ''refunded''
                         then d\<lparr>products := restock (o_items order) (products d)\<rparr>
                         else d);
                   updatedOrder = order\<lparr>o_status := newStatus\<rparr>
               in (StatusUpdated updatedOrder,
                   d1\<lparr>orders := saveOrder updatedOrder (orders d1)\<rparr>))"

section \<open>controllers/productController.js\<close>

text \<open>src/unnamed/part_002, from line 173 on\<close>

subsection \<open>updateProduct\<close>

text \<open>
  The body of the request: a field that is \<^verbatim>\<open>undefined\<close> is \<open>None\<close>. For \<^verbatim>\<open>oldPrice\<close>,
  \<open>Some None\<close> is an explicit \<^verbatim>\<open>null\<close>.
\<close>

record product_update =
  u_name :: "string option"
  u_price :: "rat option"
  u_description :: "string option"
  u_image :: "string option"
  u_stock :: "rat option"
  u_categoryId :: "oid option"
  u_oldPrice :: "rat option option"

datatype product_response =
    ProductMissing
  | BadPrice
  | BadStock
  | BadOldPrice
  | OldPriceNotAbovePrice
  | CategoryMissing oid
  | ProductValidationError
  | ProductUpdated product

text \<open>\<^verbatim>\<open>oldPrice !== undefined ? (oldPrice ? Number(oldPrice) : null) : product.oldPrice\<close>\<close>

fun currentOldPrice :: "rat option option \<Rightarrow> rat option \<Rightarrow> rat option" where
  "currentOldPrice None stored = stored"
| "currentOldPrice (Some None) stored = None"
| "currentOldPrice (Some (Some v)) stored = (if v = 0 then None else Some v)"

text \<open>\<^verbatim>\<open>name || product.name\<close>\<close>

fun orElse :: "string option \<Rightarrow> string \<Rightarrow> string" where
  "orElse None dflt = dflt"
| "orElse (Some []) dflt = dflt"
| "orElse (Some (c # cs)) dflt = c # cs"

text \<open>The validators of ProductSchema that \<^verbatim>\<open>product.save()\<close> runs.\<close>

definition validateProduct :: "product \<Rightarrow> bool" where
  "validateProduct p =
     (p_name p \<noteq> [] \<and> 1 / 100 \<le> p_price p
      \<and> (case p_oldPrice p of None \<Rightarrow> True | Some v \<Rightarrow> 0 \<le> v) \<and> 0 \<le> p_stock p)"

fun saveProduct :: "product \<Rightarrow> product list \<Rightarrow> product list" where
  "saveProduct x [] = []"
| "saveProduct x (y # ys) = (if p_id y = p_id x then x # ys else y # saveProduct x ys)"

text \<open>The existence check of the new category (lines 342-349); a missing or empty id skips it.\<close>

definition missingCategory :: "db \<Rightarrow> oid option \<Rightarrow> oid option" where
  "missingCategory d categoryId =
     (case categoryId of
        None \<Rightarrow> None
      | Some c \<Rightarrow> if findById c_id (categories d) c = None then Some c else None)"

text \<open>The assignments of lines 348-359.\<close>

definition assignFields :: "product \<Rightarrow> product_update \<Rightarrow> product" where
  "assignFields product u =
     product
       \<lparr>p_categoryId := (case u_categoryId u of None \<Rightarrow> p_categoryId product | Some c \<Rightarrow> c),
        p_name := orElse (u_name u) (p_name product),
        p_price := (case u_price u of None \<Rightarrow> p_price product | Some v \<Rightarrow> v),
        p_description := (case u_description u of None \<Rightarrow> p_description product | Some t \<Rightarrow> t),
        p_image := (case u_image u of None \<Rightarrow> p_image product | Some t \<Rightarrow> t),
        p_stock := (case u_stock u of None \<Rightarrow> p_stock product | Some v \<Rightarrow> v),
        p_oldPrice := currentOldPrice (u_oldPrice u) (p_oldPrice product)\<rparr>"

definition updateProduct :: "db \<Rightarrow> oid \<Rightarrow> product_update \<Rightarrow> product_response \<times> db" where
  "updateProduct d productId u =
     (case findById p_id (products d) productId of
        None \<Rightarrow> (ProductMissing, d)
      | Some product \<Rightarrow>
          (if (case u_price u of None \<Rightarrow> False | Some v \<Rightarrow> v \<le> 0) then (BadPrice, d)
           else if (case u_stock u of None \<Rightarrow> False | Some v \<Rightarrow> v < 0) then (BadStock, d)
           else
             let currentPrice = (case u_price u of None \<Rightarrow> p_price product | Some v \<Rightarrow> v);
                 old = currentOldPrice (u_oldPrice u) (p_oldPrice product)
             in if (case old of None \<Rightarrow> False | Some v \<Rightarrow> v < 0) then (BadOldPrice, d)
                else if (case old of None \<Rightarrow> False | Some v \<Rightarrow> v \<le> currentPrice)
                then (OldPriceNotAbovePrice, d)
                else (case missingCategory d (u_categoryId u) of
                   Some missing \<Rightarrow> (CategoryMissing missing, d)
                 | None \<Rightarrow>
                    (let updated = assignFields product u
                     in if validateProduct updated
                        then (ProductUpdated updated,
                              d\<lparr>products := saveProduct updated (products d)\<rparr>)
                        else (ProductValidationError, d)))))"

section \<open>controllers/reviewController.js\<close>

text \<open>src/unnamed/part_001\<close>

subsection \<open>Query filters\<close>

text \<open>
  \<^verbatim>\<open>Order.findOne(filter)\<close> with a filter of equality conditions, one per path. A path of
  OrderSchema is compared with the document's value; a path into the \<^verbatim>\<open>items\<close> array matches
  when some element has the value. What happens with a path that the schema does not have
  is the library's \<^verbatim>\<open>strictQuery\<close> option, which the repository does not set: when it is on
  the condition is removed from the filter, when it is off the condition is sent to the
  database, where no order document has such a field, so only \<^verbatim>\<open>null\<close> matches.
\<close>

datatype qvalue = QId oid | QStr string | QNum rat | QBool bool | QNull

fun orderPath :: "order \<Rightarrow> string \<Rightarrow> qvalue list option" where
  "orderPath x path =
     (if path = ''_id'' then Some [QId (o_id x)]
      else if path = ''user'' then Some [QId (o_user x)]
      else if path = ''items.productId'' then Some (map (\<lambda>it. QId (i_productId it)) (o_items x))
      else if path = ''items.name'' then Some (map (\<lambda>it. QStr (i_name it)) (o_items x))
      else if path = ''items.quantity'' then Some (map (\<lambda>it. QNum (i_quantity it)) (o_items x))
      else if path = ''items.price'' then Some (map (\<lambda>it. QNum (i_price it)) (o_items x))
      else if path = ''items.image'' then Some (map (\<lambda>it. QStr (i_image it)) (o_items x))
      else if path = ''totalAmount'' then Some [QNum (o_totalAmount x)]
      else if path = ''status'' then Some [QStr (o_status x)]
      else if path = ''screenshotPath''
        then Some [case o_screenshotPath x of None \<Rightarrow> QNull | Some t \<Rightarrow> QStr t]
      else if path = ''reviewSubmitted'' then Some [QBool (o_reviewSubmitted x)]
      else None)"

fun matchesCondition :: "bool \<Rightarrow> order \<Rightarrow> string \<times> qvalue \<Rightarrow> bool" where
  "matchesCondition strictQuery x (path, v) =
     (case orderPath x path of
        Some vs \<Rightarrow> v \<in> set vs
      | None \<Rightarrow> strictQuery \<or> v = QNull)"

definition Order_findOne :: "bool \<Rightarrow> (string \<times> qvalue) list \<Rightarrow> order list \<Rightarrow> order option" where
  "Order_findOne strictQuery flt docs = find (\<lambda>x. list_all (matchesCondition strictQuery x) flt) docs"

subsection \<open>createReview\<close>

text \<open>\<^verbatim>\<open>req.user\<close>, as the protect middleware attaches it.\<close>

record requester =
  usr_id :: oid
  usr_firstName :: string
  usr_username :: string

text \<open>The body of the request: a field that is missing is \<open>None\<close>.\<close>

record review_request =
  rq_productId :: "oid option"
  rq_orderId :: "oid option"
  rq_rating :: "rat option"
  rq_text :: "string option"

datatype review_response =
    MissingFields
  | RatingOutOfRange
  | ReviewProductNotFound
  | NotEligible
  | OrderAlreadyReviewed
  | DuplicateReview
  | ReviewValidationError
  | ReviewCreated review

text \<open>
  \<^verbatim>\<open>req.user.firstName || req.user.username || '...'\<close>; the source's default is a Cyrillic
  word, written here in Latin letters.
\<close>

definition authorNameOf :: "requester \<Rightarrow> string" where
  "authorNameOf usr =
     (if usr_firstName usr \<noteq> [] then usr_firstName usr
      else if usr_username usr \<noteq> [] then usr_username usr
      else ''Anonim'')"

text \<open>The validators of ReviewSchema that \<^verbatim>\<open>review.save()\<close> runs.\<close>

definition validateReview :: "review \<Rightarrow> bool" where
  "validateReview r = (r_authorName r \<noteq> [] \<and> 1 \<le> r_rating r \<and> r_rating r \<le> 5)"

text \<open>
  createReview. \<open>newId\<close> is the ObjectId that \<^verbatim>\<open>new Review\<close> generates. \<^verbatim>\<open>!rating\<close> holds for a
  missing rating and for 0.
\<close>

definition createReview ::
  "bool \<Rightarrow> db \<Rightarrow> oid \<Rightarrow> requester \<Rightarrow> review_request \<Rightarrow> review_response \<times> db" where
  "createReview strictQuery d newId usr rq =
     (case (rq_productId rq, rq_orderId rq, rq_rating rq) of
        (Some productId, Some orderId, Some rating) \<Rightarrow>
          if rating = 0 then (MissingFields, d)
          else if rating < 1 \<or> rating > 5 then (RatingOutOfRange, d)
          else (case findById p_id (products d) productId of
             None \<Rightarrow> (ReviewProductNotFound, d)
           | Some product \<Rightarrow>
              (case Order_findOne strictQuery
                      [(''_id'', QId orderId),
                       (''userId'', QId (usr_id usr)),
                       (''status'', QStr ''completed''),
                       (''items.productId'', QId productId)] (orders d) of
                 None \<Rightarrow> (NotEligible, d)
               | Some order \<Rightarrow>
                  if o_reviewSubmitted order then (OrderAlreadyReviewed, d)
                  else (case find (\<lambda>r. r_product r = productId \<and> r_user r = usr_id usr)
                               (reviews d) of
                     Some existingReview \<Rightarrow> (DuplicateReview, d)
                   | None \<Rightarrow>
                      let review = \<lparr>r_id = newId, r_user = usr_id usr,
                                     r_authorName = authorNameOf usr,
                                     r_product = productId, r_order = orderId,
                                     r_rating = rating,
                                     r_text = (case rq_text rq of None \<Rightarrow> [] | Some t \<Rightarrow> t)\<rparr>
                      in if \<not> validateReview review then (ReviewValidationError, d)
                         else
                           let d1 = d\<lparr>reviews := reviews d @ [review]\<rparr>
                           in (ReviewCreated review,
                               d1\<lparr>orders :=
                                    saveOrder (order\<lparr>o_reviewSubmitted := True\<rparr>) (orders d1)\<rparr>))))
      | _ \<Rightarrow> (MissingFields, d))"

section \<open>controllers/categoryController.js\<close>

text \<open>src/planetsupercell-backend/controllers/categoryController.js\<close>

subsection \<open>isDescendant\<close>

text \<open>
  The upward walk over \<^verbatim>\<open>parentId\<close>. It does not return on a cycle of parents that does not
  contain the ancestor; not returning is the value \<open>None\<close>.
\<close>

partial_function (option) isDescendant :: "category list \<Rightarrow> oid option \<Rightarrow> oid \<Rightarrow> bool option" where
  "isDescendant cats potentialChildId ancestorId =
     (case potentialChildId of
        None \<Rightarrow> Some False
      | Some childId \<Rightarrow>
          if childId = ancestorId then Some True
          else (case findById c_id cats childId of
             None \<Rightarrow> Some False
           | Some child \<Rightarrow>
              (case c_parentId child of
                 None \<Rightarrow> Some False
               | Some parent \<Rightarrow>
                   if parent = ancestorId then Some True
                   else isDescendant cats (Some parent) ancestorId)))"

subsection \<open>getAllDescendantIds\<close>

text \<open>\<^verbatim>\<open>Category.find({ parentId: parentId }).select('_id')\<close>\<close>

definition childrenOf :: "category list \<Rightarrow> oid \<Rightarrow> oid list" where
  "childrenOf cats parent = map c_id (filter (\<lambda>c. c_parentId c = Some parent) cats)"

text \<open>
  The loop over the children (lines 13-18), with its accumulator \<^verbatim>\<open>ids\<close>; \<open>recur\<close> is the
  recursive call.
\<close>

fun collectChildren :: "(oid \<Rightarrow> oid list option) \<Rightarrow> oid list \<Rightarrow> oid list \<Rightarrow> oid list option" where
  "collectChildren recur [] ids = Some ids"
| "collectChildren recur (child # rest) ids =
     (case recur child of
        None \<Rightarrow> None
      | Some descendantIds \<Rightarrow> collectChildren recur rest ((ids @ [child]) @ descendantIds))"

text \<open>
  The recursion runs forever when a cycle of parents is reachable below the category. The
  first argument bounds the depth of the recursion: \<open>None\<close> says that the call did not
  return within that depth.
\<close>

primrec getAllDescendantIds :: "nat \<Rightarrow> category list \<Rightarrow> oid \<Rightarrow> oid list option" where
  "getAllDescendantIds 0 cats parent = None"
| "getAllDescendantIds (Suc depth) cats parent =
     collectChildren (getAllDescendantIds depth cats) (childrenOf cats parent) []"

subsection \<open>deleteCategory\<close>

datatype category_response =
    CategoryNotFound
  | CategoryDeleted string int nat

text \<open>
  deleteCategory. The response names the category and counts the deleted subcategories
  (\<^verbatim>\<open>deletedCount - 1\<close>) and products.
\<close>

definition deleteCategory :: "nat \<Rightarrow> db \<Rightarrow> oid \<Rightarrow> (category_response \<times> db) option" where
  "deleteCategory depth d categoryId =
     (case findById c_id (categories d) categoryId of
        None \<Rightarrow> Some (CategoryNotFound, d)
      | Some category \<Rightarrow>
         (case getAllDescendantIds depth (categories d) categoryId of
            None \<Rightarrow> None
          | Some descendantIds \<Rightarrow>
              let allCategoryIdsToDelete = categoryId # descendantIds;
                  deletedProducts =
                    length (filter (\<lambda>p. p_categoryId p \<in> set allCategoryIdsToDelete) (products d));
                  d1 = d\<lparr>products :=
                          filter (\<lambda>p. p_categoryId p \<notin> set allCategoryIdsToDelete) (products d)\<rparr>;
                  deletedCategories =
                    length (filter (\<lambda>c. c_id c \<in> set allCategoryIdsToDelete) (categories d1));
                  d2 = d1\<lparr>categories :=
                          filter (\<lambda>c. c_id c \<notin> set allCategoryIdsToDelete) (categories d1)\<rparr>
              in Some (CategoryDeleted (c_name category) (int deletedCategories - 1)
                         deletedProducts, d2)))"

section \<open>controllers/authController.js\<close>

text \<open>src/unnamed/part_002, up to line 173\<close>

subsection \<open>validateTelegramData\<close>

text \<open>
  The input is the list of entries of \<^verbatim>\<open>new URLSearchParams(initData)\<close>, in their order: the
  parsing of the query string is the platform's. \<open>hmac key message\<close> stands for
  \<^verbatim>\<open>crypto.createHmac('sha256', key).update(message).digest()\<close> and \<open>hexOf\<close> for the hex
  encoding of a digest; both are parameters. \<^verbatim>\<open>params.get('hash')\<close> is the first value of
  that key; a missing or empty hash returns false. Strings are compared by their
  characters' codes, as \<^verbatim>\<open>Array.prototype.sort\<close> does without a comparator. No call of the
  body throws on a string token, so the catch branch, which also returns false, is not
  reached.
\<close>

text \<open>The loop of lines 147-151, with its accumulator \<^verbatim>\<open>dataToCheck\<close>.\<close>

fun dataToCheckLoop :: "(string \<times> string) list \<Rightarrow> string list \<Rightarrow> string list" where
  "dataToCheckLoop [] dataToCheck = dataToCheck"
| "dataToCheckLoop ((key, v) # rest) dataToCheck =
     dataToCheckLoop rest (if key \<noteq> ''hash'' then dataToCheck @ [key @ ''='' @ v] else dataToCheck)"

text \<open>\<^verbatim>\<open>Array.prototype.join\<close>\<close>

fun join :: "string \<Rightarrow> string list \<Rightarrow> string" where
  "join sep [] = []"
| "join sep [x] = x"
| "join sep (x # y # ys) = x @ sep @ join sep (y # ys)"

definition validateTelegramData ::
  "(string \<Rightarrow> string \<Rightarrow> string) \<Rightarrow> (string \<Rightarrow> string) \<Rightarrow> (string \<times> string) list \<Rightarrow> string \<Rightarrow> bool" where
  "validateTelegramData hmac hexOf params botToken =
     (case map_of params ''hash'' of
        None \<Rightarrow> False
      | Some hash \<Rightarrow>
          if hash = [] then False
          else
            let dataToCheck = sort (dataToCheckLoop params []);
                dataCheckString = join [CHR 0x0A] dataToCheck;
                secretKey = hmac ''WebAppData'' botToken;
                calculatedHash = hexOf (hmac secretKey dataCheckString)
            in calculatedHash = hash)"

section \<open>HMAC-SHA256\<close>

text \<open>
  The keyed hash of the platform's crypto module, which validateTelegramData is given:
  HMAC (RFC 2104) over SHA-256 (FIPS 180-4), on strings of bytes. It is not repository
  code; it is written out so that validateTelegramData can be run on a payload. A word is
  the list of its 32 bits, the least significant first.
\<close>

type_synonym word32 = "bool list"

fun xorBits :: "bool list \<Rightarrow> bool list \<Rightarrow> bool list" where
  "xorBits (a # as) (b # bs) = (a \<noteq> b) # xorBits as bs"
| "xorBits _ _ = []"

fun andBits :: "bool list \<Rightarrow> bool list \<Rightarrow> bool list" where
  "andBits (a # as) (b # bs) = (a \<and> b) # andBits as bs"
| "andBits _ _ = []"

fun rippleAdd :: "bool \<Rightarrow> bool list \<Rightarrow> bool list \<Rightarrow> bool list" where
  "rippleAdd c (a # as) (b # bs) =
     ((a \<noteq> b) \<noteq> c) # rippleAdd ((a \<and> b) \<or> (c \<and> (a \<noteq> b))) as bs"
| "rippleAdd c _ _ = []"

definition addWords :: "word32 \<Rightarrow> word32 \<Rightarrow> word32" where
  "addWords x y = rippleAdd False x y"

definition rotateRight :: "nat \<Rightarrow> word32 \<Rightarrow> word32" where
  "rotateRight n x = drop n x @ take n x"

definition shiftRight :: "nat \<Rightarrow> word32 \<Rightarrow> word32" where
  "shiftRight n x = drop n x @ replicate n False"

definition chooseBits :: "word32 \<Rightarrow> word32 \<Rightarrow> word32 \<Rightarrow> word32" where
  "chooseBits x y z = xorBits (andBits x y) (andBits (map Not x) z)"

definition majorityBits :: "word32 \<Rightarrow> word32 \<Rightarrow> word32 \<Rightarrow> word32" where
  "majorityBits x y z = xorBits (xorBits (andBits x y) (andBits x z)) (andBits y z)"

definition bsig0 :: "word32 \<Rightarrow> word32" where
  "bsig0 x = xorBits (xorBits (rotateRight 2 x) (rotateRight 13 x)) (rotateRight 22 x)"

definition bsig1 :: "word32 \<Rightarrow> word32" where
  "bsig1 x = xorBits (xorBits (rotateRight 6 x) (rotateRight 11 x)) (rotateRight 25 x)"

definition ssig0 :: "word32 \<Rightarrow> word32" where
  "ssig0 x = xorBits (xorBits (rotateRight 7 x) (rotateRight 18 x)) (shiftRight 3 x)"

definition ssig1 :: "word32 \<Rightarrow> word32" where
  "ssig1 x = xorBits (xorBits (rotateRight 17 x) (rotateRight 19 x)) (shiftRight 10 x)"

fun bitsOfChar :: "char \<Rightarrow> bool list" where
  "bitsOfChar (Char b0 b1 b2 b3 b4 b5 b6 b7) = [b0, b1, b2, b3, b4, b5, b6, b7]"

definition charOfBits :: "bool list \<Rightarrow> char" where
  "charOfBits bs = Char (bs ! 0) (bs ! 1) (bs ! 2) (bs ! 3) (bs ! 4) (bs ! 5) (bs ! 6) (bs ! 7)"

fun wordsOf :: "string \<Rightarrow> word32 list" where
  "wordsOf (a # b # c # d # rest) =
     (bitsOfChar d @ bitsOfChar c @ bitsOfChar b @ bitsOfChar a) # wordsOf rest"
| "wordsOf _ = []"

definition bytesOf :: "word32 \<Rightarrow> string" where
  "bytesOf w = [charOfBits (drop 24 w), charOfBits (take 8 (drop 16 w)),
                charOfBits (take 8 (drop 8 w)), charOfBits (take 8 w)]"

definition roundConstants :: "word32 list" where
  "roundConstants = wordsOf
    [CHR 0x42, CHR 0x8a, CHR 0x2f, CHR 0x98, CHR 0x71, CHR 0x37, CHR 0x44, CHR 0x91, CHR 0xb5, CHR 0xc0, CHR 0xfb, CHR 0xcf, CHR 0xe9, CHR 0xb5, CHR 0xdb, CHR 0xa5,
     CHR 0x39, CHR 0x56, CHR 0xc2, CHR 0x5b, CHR 0x59, CHR 0xf1, CHR 0x11, CHR 0xf1, CHR 0x92, CHR 0x3f, CHR 0x82, CHR 0xa4, CHR 0xab, CHR 0x1c, CHR 0x5e, CHR 0xd5,
     CHR 0xd8, CHR 0x07, CHR 0xaa, CHR 0x98, CHR 0x12, CHR 0x83, CHR 0x5b, CHR 0x01, CHR 0x24, CHR 0x31, CHR 0x85, CHR 0xbe, CHR 0x55, CHR 0x0c, CHR 0x7d, CHR 0xc3,
     CHR 0x72, CHR 0xbe, CHR 0x5d, CHR 0x74, CHR 0x80, CHR 0xde, CHR 0xb1, CHR 0xfe, CHR 0x9b, CHR 0xdc, CHR 0x06, CHR 0xa7, CHR 0xc1, CHR 0x9b, CHR 0xf1, CHR 0x74,
     CHR 0xe4, CHR 0x9b, CHR 0x69, CHR 0xc1, CHR 0xef, CHR 0xbe, CHR 0x47, CHR 0x86, CHR 0x0f, CHR 0xc1, CHR 0x9d, CHR 0xc6, CHR 0x24, CHR 0x0c, CHR 0xa1, CHR 0xcc,
     CHR 0x2d, CHR 0xe9, CHR 0x2c, CHR 0x6f, CHR 0x4a, CHR 0x74, CHR 0x84, CHR 0xaa, CHR 0x5c, CHR 0xb0, CHR 0xa9, CHR 0xdc, CHR 0x76, CHR 0xf9, CHR 0x88, CHR 0xda,
     CHR 0x98, CHR 0x3e, CHR 0x51, CHR 0x52, CHR 0xa8, CHR 0x31, CHR 0xc6, CHR 0x6d, CHR 0xb0, CHR 0x03, CHR 0x27, CHR 0xc8, CHR 0xbf, CHR 0x59, CHR 0x7f, CHR 0xc7,
     CHR 0xc6, CHR 0xe0, CHR 0x0b, CHR 0xf3, CHR 0xd5, CHR 0xa7, CHR 0x91, CHR 0x47, CHR 0x06, CHR 0xca, CHR 0x63, CHR 0x51, CHR 0x14, CHR 0x29, CHR 0x29, CHR 0x67,
     CHR 0x27, CHR 0xb7, CHR 0x0a, CHR 0x85, CHR 0x2e, CHR 0x1b, CHR 0x21, CHR 0x38, CHR 0x4d, CHR 0x2c, CHR 0x6d, CHR 0xfc, CHR 0x53, CHR 0x38, CHR 0x0d, CHR 0x13,
     CHR 0x65, CHR 0x0a, CHR 0x73, CHR 0x54, CHR 0x76, CHR 0x6a, CHR 0x0a, CHR 0xbb, CHR 0x81, CHR 0xc2, CHR 0xc9, CHR 0x2e, CHR 0x92, CHR 0x72, CHR 0x2c, CHR 0x85,
     CHR 0xa2, CHR 0xbf, CHR 0xe8, CHR 0xa1, CHR 0xa8, CHR 0x1a, CHR 0x66, CHR 0x4b, CHR 0xc2, CHR 0x4b, CHR 0x8b, CHR 0x70, CHR 0xc7, CHR 0x6c, CHR 0x51, CHR 0xa3,
     CHR 0xd1, CHR 0x92, CHR 0xe8, CHR 0x19, CHR 0xd6, CHR 0x99, CHR 0x06, CHR 0x24, CHR 0xf4, CHR 0x0e, CHR 0x35, CHR 0x85, CHR 0x10, CHR 0x6a, CHR 0xa0, CHR 0x70,
     CHR 0x19, CHR 0xa4, CHR 0xc1, CHR 0x16, CHR 0x1e, CHR 0x37, CHR 0x6c, CHR 0x08, CHR 0x27, CHR 0x48, CHR 0x77, CHR 0x4c, CHR 0x34, CHR 0xb0, CHR 0xbc, CHR 0xb5,
     CHR 0x39, CHR 0x1c, CHR 0x0c, CHR 0xb3, CHR 0x4e, CHR 0xd8, CHR 0xaa, CHR 0x4a, CHR 0x5b, CHR 0x9c, CHR 0xca, CHR 0x4f, CHR 0x68, CHR 0x2e, CHR 0x6f, CHR 0xf3,
     CHR 0x74, CHR 0x8f, CHR 0x82, CHR 0xee, CHR 0x78, CHR 0xa5, CHR 0x63, CHR 0x6f, CHR 0x84, CHR 0xc8, CHR 0x78, CHR 0x14, CHR 0x8c, CHR 0xc7, CHR 0x02, CHR 0x08,
     CHR 0x90, CHR 0xbe, CHR 0xff, CHR 0xfa, CHR 0xa4, CHR 0x50, CHR 0x6c, CHR 0xeb, CHR 0xbe, CHR 0xf9, CHR 0xa3, CHR 0xf7, CHR 0xc6, CHR 0x71, CHR 0x78, CHR 0xf2]"

definition initialHash :: "word32 list" where
  "initialHash = wordsOf
    [CHR 0x6a, CHR 0x09, CHR 0xe6, CHR 0x67, CHR 0xbb, CHR 0x67, CHR 0xae, CHR 0x85, CHR 0x3c, CHR 0x6e, CHR 0xf3, CHR 0x72, CHR 0xa5, CHR 0x4f, CHR 0xf5, CHR 0x3a,
     CHR 0x51, CHR 0x0e, CHR 0x52, CHR 0x7f, CHR 0x9b, CHR 0x05, CHR 0x68, CHR 0x8c, CHR 0x1f, CHR 0x83, CHR 0xd9, CHR 0xab, CHR 0x5b, CHR 0xe0, CHR 0xcd, CHR 0x19]"

text \<open>The message schedule: the window holds the last 16 words, the oldest first.\<close>

definition nextScheduleWord :: "word32 list \<Rightarrow> word32" where
  "nextScheduleWord win = addWords (addWords (addWords (ssig1 (win ! 14)) (win ! 9)) (ssig0 (win ! 1))) (win ! 0)"

fun messageSchedule :: "'a list \<Rightarrow> word32 list \<Rightarrow> word32 list" where
  "messageSchedule [] win = []"
| "messageSchedule (k # ks) win = nextScheduleWord win # messageSchedule ks (tl win @ [nextScheduleWord win])"

definition hashRound :: "word32 list \<Rightarrow> word32 \<times> word32 \<Rightarrow> word32 list" where
  "hashRound s kw =
     (let t1 = addWords (addWords (addWords (addWords (s ! 7) (bsig1 (s ! 4))) (chooseBits (s ! 4) (s ! 5) (s ! 6))) (fst kw)) (snd kw);
          t2 = addWords (bsig0 (s ! 0)) (majorityBits (s ! 0) (s ! 1) (s ! 2))
      in [addWords t1 t2, s ! 0, s ! 1, s ! 2, addWords (s ! 3) t1, s ! 4, s ! 5, s ! 6])"

definition compressBlock :: "word32 list \<Rightarrow> word32 list \<Rightarrow> word32 list" where
  "compressBlock st block = map2 addWords st (foldl hashRound st (zip roundConstants (block @ messageSchedule (drop 16 roundConstants) block)))"

fun increment :: "bool list \<Rightarrow> bool list" where
  "increment [] = []"
| "increment (False # bs) = True # bs"
| "increment (True # bs) = False # increment bs"

text \<open>The length of the message in bits, as the 8 bytes that end the padding.\<close>

definition lengthField :: "string \<Rightarrow> string" where
  "lengthField m =
     (let bits = replicate 3 False @ foldr (\<lambda>c n. increment n) m (replicate 61 False)
      in bytesOf (drop 32 bits) @ bytesOf (take 32 bits))"

definition padMessage :: "string \<Rightarrow> string" where
  "padMessage m = m @ [CHR 0x80] @ replicate ((119 - length m mod 64) mod 64) (CHR 0x00) @ lengthField m"

fun hashBlocks :: "word32 list \<Rightarrow> word32 list \<Rightarrow> word32 list" where
  "hashBlocks st [] = st"
| "hashBlocks st (w # ws) = hashBlocks (compressBlock st (take 16 (w # ws))) (drop 16 (w # ws))"

definition sha256 :: "string \<Rightarrow> string" where
  "sha256 m = concat (map bytesOf (hashBlocks initialHash (wordsOf (padMessage m))))"

definition hexDigit :: "bool list \<Rightarrow> char" where
  "hexDigit bs = ''0123456789abcdef'' ! foldr (\<lambda>b n. (if b then 1 else 0) + 2 * n) bs 0"

definition hexEncode :: "string \<Rightarrow> string" where
  "hexEncode s = concat (map (\<lambda>c. [hexDigit (drop 4 (bitsOfChar c)), hexDigit (take 4 (bitsOfChar c))]) s)"

definition xorChar :: "char \<Rightarrow> char \<Rightarrow> char" where
  "xorChar c d = charOfBits (xorBits (bitsOfChar c) (bitsOfChar d))"

definition hmacSha256 :: "string \<Rightarrow> string \<Rightarrow> string" where
  "hmacSha256 key message =
     (let k0 = (if 64 < length key then sha256 key else key);
          k = k0 @ replicate (64 - length k0) (CHR 0x00)
      in sha256 (map (xorChar (CHR 0x5c)) k @ sha256 (map (xorChar (CHR 0x36)) k @ message)))"

section \<open>Auxiliary notions of the statements\<close>

text \<open>The quantity that the lines of an order hold of one product.\<close>

definition orderedQuantity :: "order_item list \<Rightarrow> oid \<Rightarrow> rat" where
  "orderedQuantity its k = sum_list (map i_quantity (filter (\<lambda>it. i_productId it = k) its))"

text \<open>
  The spec's words for the deleted set: the descendants of a category are the categories
  transitively parented under it.
\<close>

inductive_set descendants :: "category list \<Rightarrow> oid \<Rightarrow> oid set" for cats :: "category list" and anc :: oid where
  child: "c \<in> set cats \<Longrightarrow> c_parentId c = Some anc \<Longrightarrow> c_id c \<in> descendants cats anc"
| step: "k \<in> descendants cats anc \<Longrightarrow> c \<in> set cats \<Longrightarrow> c_parentId c = Some k
           \<Longrightarrow> c_id c \<in> descendants cats anc"

text \<open>The parent relation of the stored categories: the pairs (child, parent).\<close>

definition parentRel :: "category list \<Rightarrow> (oid \<times> oid) set" where
  "parentRel cats =
     set (List.map_filter (\<lambda>c. map_option (\<lambda>p. (c_id c, p)) (c_parentId c)) cats)"

text \<open>
  The check as the specification words it: the secret is the HMAC over the literal string
  keyed by the bot token, and the pairs are sorted by key.
\<close>

definition claimedTelegramCheck ::
  "(string \<Rightarrow> string \<Rightarrow> string) \<Rightarrow> (string \<Rightarrow> string) \<Rightarrow> (string \<times> string) list \<Rightarrow> string \<Rightarrow> bool" where
  "claimedTelegramCheck hmac hexOf params botToken =
     (case map_of params ''hash'' of
        None \<Rightarrow> False
      | Some hash \<Rightarrow>
          let pairs = sort_key fst (filter (\<lambda>(key, v). key \<noteq> ''hash'') params);
              dataCheckString = join [CHR 0x0A] (map (\<lambda>(key, v). key @ ''='' @ v) pairs);
              secret = hmac botToken ''WebAppData''
          in hexOf (hmac secret dataCheckString) = hash)"

section \<open>An example store\<close>

text \<open>
  Two products, and the order that createOrder makes of two units of the first one.
\<close>

definition gems :: product where
  "gems = \<lparr>p_id = ObjectId 10, p_name = ''Gems'', p_categoryId = ObjectId 2,
     p_description = [], p_image = [], p_price = 10, p_oldPrice = None, p_stock = 5\<rparr>"

definition pass :: product where
  "pass = \<lparr>p_id = ObjectId 11, p_name = ''Pass'', p_categoryId = ObjectId 4,
     p_description = [], p_image = [], p_price = 5 / 2, p_oldPrice = Some 3, p_stock = 2\<rparr>"

definition shop :: db where
  "shop = \<lparr>categories = [], products = [gems, pass], orders = [], reviews = []\<rparr>"

definition gemsOrder :: order where
  "gemsOrder = \<lparr>o_id = ObjectId 100, o_user = ObjectId 21,
     o_items = [\<lparr>i_productId = ObjectId 10, i_name = ''Gems'', i_quantity = 2,
                  i_price = 10, i_image = []\<rparr>],
     o_totalAmount = 20, o_status = ''paid-pending'', o_screenshotPath = None,
     o_reviewSubmitted = False\<rparr>"

definition shopAfterOrder :: db where
  "shopAfterOrder = shop\<lparr>products := [gems\<lparr>p_stock := 3\<rparr>, pass], orders := [gemsOrder]\<rparr>"

definition priceChange :: product_update where
  "priceChange = \<lparr>u_name = None, u_price = Some 12, u_description = None, u_image = None,
     u_stock = None, u_categoryId = None, u_oldPrice = None\<rparr>"

text \<open>The same store when the order has been refunded.\<close>

definition refundedShop :: db where
  "refundedShop = shop\<lparr>orders := [gemsOrder\<lparr>o_status := ''refunded''\<rparr>]\<rparr>"

text \<open>A catalog of four categories: a chain of three and a second root.\<close>

definition catalog :: "category list" where
  "catalog = [\<lparr>c_id = ObjectId 1, c_name = ''Brawl'', c_parentId = None\<rparr>,
              \<lparr>c_id = ObjectId 2, c_name = ''Gems'', c_parentId = Some (ObjectId 1)\<rparr>,
              \<lparr>c_id = ObjectId 3, c_name = ''Offers'', c_parentId = Some (ObjectId 2)\<rparr>,
              \<lparr>c_id = ObjectId 4, c_name = ''Clash'', c_parentId = None\<rparr>]"

definition catalogShop :: db where
  "catalogShop = shop\<lparr>categories := catalog\<rparr>"

text \<open>The store when the order has been completed, its buyer, and another user.\<close>

definition completedShop :: db where
  "completedShop = shopAfterOrder\<lparr>orders := [gemsOrder\<lparr>o_status := ''completed''\<rparr>]\<rparr>"

definition buyer :: requester where
  "buyer = \<lparr>usr_id = ObjectId 21, usr_firstName = ''Ann'', usr_username = ''ann''\<rparr>"

definition stranger :: requester where
  "stranger = \<lparr>usr_id = ObjectId 22, usr_firstName = [], usr_username = ''bob''\<rparr>"

definition gemsReview :: "rat \<Rightarrow> review_request" where
  "gemsReview stars = \<lparr>rq_productId = Some (ObjectId 10), rq_orderId = Some (ObjectId 100),
     rq_rating = Some stars, rq_text = None\<rparr>"

text \<open>
  A bot token and a payload signed for it: the hash parameter is the hex digest of the
  HMAC-SHA256, keyed by \<open>derivedSecret\<close>, of \<open>payloadData\<close>, where \<open>derivedSecret\<close> is the
  HMAC-SHA256 of the token keyed by "WebAppData". \<open>swappedSecret\<close> is the HMAC-SHA256 of
  "WebAppData" keyed by the token, and \<open>swappedHash\<close> the hex digest of the HMAC-SHA256 of
  \<open>payloadData\<close> keyed by it.
\<close>

definition exampleToken :: string where
  "exampleToken = ''42:TOKEN''"

definition payloadData :: string where
  "payloadData = ''auth_date=1'' @ [CHR 0x0A] @ ''query_id=7''"

definition derivedSecret :: string where
  "derivedSecret =
     [CHR 0xdc, CHR 0x17, CHR 0xe8, CHR 0x1e, CHR 0x8a, CHR 0xee, CHR 0x0e, CHR 0x87,
     CHR 0xe7, CHR 0xc4, CHR 0xfc, CHR 0x08, CHR 0x96, CHR 0x05, CHR 0x24, CHR 0x85,
     CHR 0xf1, CHR 0x82, CHR 0x8d, CHR 0x9c, CHR 0x99, CHR 0xd3, CHR 0x7c, CHR 0x5f,
     CHR 0x59, CHR 0x36, CHR 0xd0, CHR 0x86, CHR 0x30, CHR 0x6f, CHR 0x99, CHR 0x77]"

definition payloadHash :: string where
  "payloadHash = ''ca354750de6cb4ceb253ee8b60d85cde6cdd0953f1a2fe18e2e3f1cc3548608a''"

definition swappedSecret :: string where
  "swappedSecret =
     [CHR 0x4e, CHR 0xd9, CHR 0x72, CHR 0x59, CHR 0xfc, CHR 0xae, CHR 0xee, CHR 0xa4,
     CHR 0x97, CHR 0x72, CHR 0x11, CHR 0xa5, CHR 0xbc, CHR 0x02, CHR 0x8b, CHR 0x22,
     CHR 0x43, CHR 0x05, CHR 0x4d, CHR 0xb2, CHR 0x81, CHR 0x1c, CHR 0xfb, CHR 0x0a,
     CHR 0xfd, CHR 0x78, CHR 0xea, CHR 0x63, CHR 0x7b, CHR 0x1d, CHR 0x89, CHR 0x67]"

definition swappedHash :: string where
  "swappedHash = ''b84b4a7855828e673248e5308bf393f32409bbe5d7b5d9e6be049f3e00ac4004''"

definition signedPayload :: "(string \<times> string) list" where
  "signedPayload = [(''query_id'', ''7''), (''auth_date'', ''1''), (''hash'', payloadHash)]"

text \<open>
  A keyed function that does not tell its key from its message, and a payload signed with
  it whose keys \<open>a\<close> and \<open>a1\<close> the order of the keys and the order of the key=value strings
  arrange differently.
\<close>

definition symmetricPairing :: "string \<Rightarrow> string \<Rightarrow> string" where
  "symmetricPairing key message =
     (if key \<le> message then key @ ''/'' @ message else message @ ''/'' @ key)"

definition prefixKeyPayload :: "(string \<times> string) list" where
  "prefixKeyPayload = [(''a'', ''2''), (''a1'', ''3''),
                       (''hash'', ''T/WebAppData/a1=3'' @ [CHR 0x0A] @ ''a=2'')]"

section \<open>Lemmas on the store primitives\<close>

lemma productMap_Some:
  "productMap ps k = Some p \<Longrightarrow> p \<in> set ps \<and> p_id p = k"
  unfolding productMap_def by (auto dest!: map_of_SomeD)

lemma findById_Some: "findById idf docs k = Some x \<Longrightarrow> x \<in> set docs \<and> idf x = k"
  unfolding findById_def by (auto simp: find_Some_iff)

lemma findById_None: "findById idf docs k = None \<longleftrightarrow> k \<notin> idf ` set docs"
  unfolding findById_def by (auto simp: find_None_iff)

lemma findById_distinct:
  "distinct (map idf docs) \<Longrightarrow> x \<in> set docs \<Longrightarrow> findById idf docs (idf x) = Some x"
  unfolding findById_def
  by (induction docs) (auto simp: image_iff)

lemma productMap_filter:
  assumes "distinct (map p_id ps)" and "k \<in> set ids"
  shows "productMap (filter (\<lambda>p. p_id p \<in> set ids) ps) k = findById p_id ps k"
proof (cases "findById p_id ps k")
  case None
  then have "k \<notin> p_id ` set ps" by (simp add: findById_None)
  then have "productMap (filter (\<lambda>p. p_id p \<in> set ids) ps) k = None"
    unfolding productMap_def by (auto simp: map_of_eq_None_iff image_iff)
  with None show ?thesis by simp
next
  case (Some p)
  then have p: "p \<in> set ps" "p_id p = k" using findById_Some by fastforce+
  have d: "distinct (map fst (rev (map (\<lambda>p. (p_id p, p)) (filter (\<lambda>p. p_id p \<in> set ids) ps))))"
    using assms(1) by (simp add: rev_map[symmetric] comp_def distinct_map_filter)
  have "(k, p) \<in> set (rev (map (\<lambda>p. (p_id p, p)) (filter (\<lambda>p. p_id p \<in> set ids) ps)))"
    using p assms(2) by auto
  with d have "productMap (filter (\<lambda>p. p_id p \<in> set ids) ps) k = Some p"
    unfolding productMap_def by (rule map_of_is_SomeI)
  with Some show ?thesis by simp
qed

lemma incStock_map:
  "distinct (map p_id ps) \<Longrightarrow>
   findByIdAndUpdate_incStock k d ps =
     map (\<lambda>p. if p_id p = k then p\<lparr>p_stock := p_stock p + d\<rparr> else p) ps"
proof (induction ps)
  case Nil
  then show ?case by simp
next
  case (Cons p ps)
  show ?case
  proof (cases "p_id p = k")
    case True
    with Cons.prems have "\<forall>q\<in>set ps. p_id q \<noteq> k" by (auto simp: image_iff)
    then have "map (\<lambda>p. if p_id p = k then p\<lparr>p_stock := p_stock p + d\<rparr> else p) ps = ps"
      by (simp add: map_idI)
    with True show ?thesis by simp
  next
    case False
    with Cons show ?thesis by simp
  qed
qed

lemma incStock_ids: "map p_id (findByIdAndUpdate_incStock k d ps) = map p_id ps"
  by (induction ps) auto

lemma restock_map:
  "distinct (map p_id ps) \<Longrightarrow>
   restock its ps = map (\<lambda>p. p\<lparr>p_stock := p_stock p + orderedQuantity its (p_id p)\<rparr>) ps"
proof (induction its arbitrary: ps)
  case Nil
  then show ?case by (simp add: orderedQuantity_def)
next
  case (Cons it its)
  let ?ps = "findByIdAndUpdate_incStock (i_productId it) (i_quantity it) ps"
  have d: "distinct (map p_id ?ps)" using Cons.prems by (simp add: incStock_ids)
  have "restock (it # its) ps = restock its ?ps" by simp
  also have "\<dots> = map (\<lambda>p. p\<lparr>p_stock := p_stock p + orderedQuantity its (p_id p)\<rparr>) ?ps"
    by (rule Cons.IH[OF d])
  also have "\<dots> = map (\<lambda>p. p\<lparr>p_stock := p_stock p + orderedQuantity (it # its) (p_id p)\<rparr>) ps"
    by (simp add: incStock_map[OF Cons.prems] orderedQuantity_def add.assoc)
  finally show ?case .
qed

lemma decrementStock_map:
  "distinct (map p_id ps) \<Longrightarrow>
   decrementStock its ps = map (\<lambda>p. p\<lparr>p_stock := p_stock p - orderedQuantity its (p_id p)\<rparr>) ps"
proof (induction its arbitrary: ps)
  case Nil
  then show ?case by (simp add: orderedQuantity_def)
next
  case (Cons it its)
  let ?ps = "findByIdAndUpdate_incStock (i_productId it) (- i_quantity it) ps"
  have d: "distinct (map p_id ?ps)" using Cons.prems by (simp add: incStock_ids)
  have "decrementStock (it # its) ps = decrementStock its ?ps" by simp
  also have "\<dots> = map (\<lambda>p. p\<lparr>p_stock := p_stock p - orderedQuantity its (p_id p)\<rparr>) ?ps"
    by (rule Cons.IH[OF d])
  also have "\<dots> = map (\<lambda>p. p\<lparr>p_stock := p_stock p - orderedQuantity (it # its) (p_id p)\<rparr>) ps"
    by (simp add: incStock_map[OF Cons.prems] orderedQuantity_def algebra_simps)
  finally show ?case .
qed

lemma saveOrder_find:
  "findById o_id os (o_id x) = Some y \<Longrightarrow> findById o_id (saveOrder x os) (o_id x) = Some x"
  unfolding findById_def by (induction os) (auto split: if_splits)

lemma updateProduct_orders: "orders (snd (updateProduct s k u)) = orders s"
  unfolding updateProduct_def
  by (simp add: Let_def split: option.splits)

lemma updateProducts_orders:
  "orders (fold (\<lambda>(k, u) s. snd (updateProduct s k u)) us s) = orders s"
  by (induction us arbitrary: s) (auto simp: updateProduct_orders)

section \<open>Lemmas on the loops of createOrder\<close>

lemma validateItems_Inr:
  "validateItems pm its t acc = Inr (t', acc') \<Longrightarrow>
     \<exists>new. acc' = acc @ new
       \<and> t' = t + sum_list (map (\<lambda>it. i_price it * i_quantity it) new)
       \<and> list_all2 (\<lambda>r it. \<exists>p. pm (req_productId r) = Some p \<and> req_quantity r \<le> p_stock p
             \<and> it = \<lparr>i_productId = p_id p, i_name = p_name p, i_quantity = req_quantity r,
                      i_price = p_price p, i_image = p_image p\<rparr>) its new"
proof (induction its arbitrary: t acc)
  case Nil
  then show ?case by simp
next
  case (Cons r rest)
  from Cons.prems obtain p where p: "pm (req_productId r) = Some p"
    by (auto split: option.splits)
  from Cons.prems p have ok: "req_quantity r \<le> p_stock p"
    by (auto split: if_splits)
  let ?it = "\<lparr>i_productId = p_id p, i_name = p_name p, i_quantity = req_quantity r,
                i_price = p_price p, i_image = p_image p\<rparr>"
  from Cons.prems p ok have
    "validateItems pm rest (t + p_price p * req_quantity r) (acc @ [?it]) = Inr (t', acc')"
    by simp
  from Cons.IH[OF this] obtain new where new:
    "acc' = (acc @ [?it]) @ new"
    "t' = (t + p_price p * req_quantity r) + sum_list (map (\<lambda>it. i_price it * i_quantity it) new)"
    "list_all2 (\<lambda>r it. \<exists>p. pm (req_productId r) = Some p \<and> req_quantity r \<le> p_stock p
             \<and> it = \<lparr>i_productId = p_id p, i_name = p_name p, i_quantity = req_quantity r,
                      i_price = p_price p, i_image = p_image p\<rparr>) rest new"
    by blast
  show ?case
  proof (intro exI[of _ "?it # new"] conjI)
    show "acc' = acc @ ?it # new" using new(1) by simp
    show "t' = t + sum_list (map (\<lambda>it. i_price it * i_quantity it) (?it # new))"
      using new(2) by simp
    show "list_all2 (\<lambda>r it. \<exists>p. pm (req_productId r) = Some p \<and> req_quantity r \<le> p_stock p
             \<and> it = \<lparr>i_productId = p_id p, i_name = p_name p, i_quantity = req_quantity r,
                      i_price = p_price p, i_image = p_image p\<rparr>) (r # rest) (?it # new)"
      using new(3) p ok by simp
  qed
qed



lemma validateItems_Inl:
  "validateItems pm its t acc = Inl failure \<Longrightarrow>
     (\<exists>k. failure = ProductNotFound k) \<or> (\<exists>k s. failure = InsufficientStock k s)"
  by (induction its arbitrary: t acc) (auto split: option.splits if_splits)

lemma createOrder_lookup:
  assumes "distinct (map p_id (products d))" and "x \<in> set its"
  shows "productMap (filter (\<lambda>p. p_id p \<in> set (map req_productId its)) (products d)) (req_productId x)
         = findById p_id (products d) (req_productId x)"
  using assms by (intro productMap_filter) auto

text \<open>
  The stock after a created order: every product loses the quantities of the lines of
  the request that name it. When no two lines name the same product, no stock that was
  non-negative becomes negative.
\<close>

lemma orderedQuantity_snapshot:
  assumes "list_all2 (\<lambda>r it. i_productId it = req_productId r \<and> i_quantity it = req_quantity r) its orderItems"
  shows "orderedQuantity orderItems k
         = sum_list (map req_quantity (filter (\<lambda>r. req_productId r = k) its))"
  using assms unfolding orderedQuantity_def
  by (induction its orderItems rule: list_all2_induct) auto

lemma createOrder_stock_after:
  assumes "distinct (map p_id (products d))"
    and "createOrder d newId userId its screenshotPath = (OrderCreated ord, d')"
  shows "products d'
         = map (\<lambda>p. p\<lparr>p_stock := p_stock p
                  - sum_list (map req_quantity (filter (\<lambda>r. req_productId r = p_id p) its))\<rparr>)
             (products d)"
proof -
  let ?pm = "productMap (filter (\<lambda>p. p_id p \<in> set (map req_productId its)) (products d))"
  from assms(2) have ne: "its \<noteq> []"
    by (auto simp: createOrder_def split: if_splits)
  from assms(2) ne obtain total orderItems where
    v: "validateItems ?pm its 0 [] = Inr (total, orderItems)"
    by (cases "validateItems ?pm its 0 []") (auto simp: createOrder_def dest: validateItems_Inl)
  from assms(2) ne v have d': "products d' = decrementStock orderItems (products d)"
    by (auto simp: createOrder_def Let_def split: if_splits)
  from validateItems_Inr[OF v] have
    "list_all2 (\<lambda>r it. \<exists>p. ?pm (req_productId r) = Some p \<and> req_quantity r \<le> p_stock p
             \<and> it = \<lparr>i_productId = p_id p, i_name = p_name p, i_quantity = req_quantity r,
                      i_price = p_price p, i_image = p_image p\<rparr>) its orderItems"
    by auto
  then have "list_all2 (\<lambda>r it. i_productId it = req_productId r \<and> i_quantity it = req_quantity r)
      its orderItems"
  proof (rule list.rel_mono_strong)
    fix r it
    assume "\<exists>p. ?pm (req_productId r) = Some p \<and> req_quantity r \<le> p_stock p
             \<and> it = \<lparr>i_productId = p_id p, i_name = p_name p, i_quantity = req_quantity r,
                      i_price = p_price p, i_image = p_image p\<rparr>"
    then obtain p where p: "?pm (req_productId r) = Some p"
      "it = \<lparr>i_productId = p_id p, i_name = p_name p, i_quantity = req_quantity r,
                      i_price = p_price p, i_image = p_image p\<rparr>" by blast
    from p(1) have "p_id p = req_productId r" using productMap_Some by fastforce
    with p(2) show "i_productId it = req_productId r \<and> i_quantity it = req_quantity r" by simp
  qed
  from orderedQuantity_snapshot[OF this] d' assms(1) show ?thesis
    by (simp add: decrementStock_map)
qed

lemma createOrder_distinct_lines_nonnegative:
  assumes "distinct (map p_id (products d))"
    and "distinct (map req_productId its)"
    and "\<forall>p\<in>set (products d). 0 \<le> p_stock p"
    and "createOrder d newId userId its screenshotPath = (OrderCreated ord, d')"
  shows "\<forall>p\<in>set (products d'). 0 \<le> p_stock p"
proof -
  let ?pm = "productMap (filter (\<lambda>p. p_id p \<in> set (map req_productId its)) (products d))"
  have pm: "\<And>x. x \<in> set its \<Longrightarrow> ?pm (req_productId x) = findById p_id (products d) (req_productId x)"
    using assms(1) by (rule createOrder_lookup)
  from assms(4) have ne: "its \<noteq> []"
    by (auto simp: createOrder_def split: if_splits)
  from assms(4) ne obtain total orderItems where
    v: "validateItems ?pm its 0 [] = Inr (total, orderItems)"
    by (cases "validateItems ?pm its 0 []") (auto simp: createOrder_def dest: validateItems_Inl)
  from validateItems_Inr[OF v] have
    snap: "list_all2 (\<lambda>r it. \<exists>p. ?pm (req_productId r) = Some p \<and> req_quantity r \<le> p_stock p
             \<and> it = \<lparr>i_productId = p_id p, i_name = p_name p, i_quantity = req_quantity r,
                      i_price = p_price p, i_image = p_image p\<rparr>) its orderItems"
    by auto
  have covered: "req_quantity r \<le> p_stock p"
    if "r \<in> set its" and "p \<in> set (products d)" and "p_id p = req_productId r" for r p
  proof -
    from snap that(1) obtain it q where "?pm (req_productId r) = Some q" "req_quantity r \<le> p_stock q"
      by (auto simp: list_all2_conv_all_nth in_set_conv_nth)
    moreover have "findById p_id (products d) (req_productId r) = Some p"
      using findById_distinct[OF assms(1) that(2)] that(3) by simp
    ultimately show ?thesis using pm[OF that(1)] by simp
  qed
  have single: "sum_list (map req_quantity (filter (\<lambda>r. req_productId r = k) its)) \<le> s"
    if "\<And>r. r \<in> set its \<Longrightarrow> req_productId r = k \<Longrightarrow> req_quantity r \<le> s" and "0 \<le> s" for k s
    using assms(2) that
  proof (induction its)
    case Nil
    then show ?case by simp
  next
    case (Cons r rs)
    show ?case
    proof (cases "req_productId r = k")
      case True
      with Cons.prems(1) have "filter (\<lambda>r. req_productId r = k) rs = []"
        by (auto simp: filter_empty_conv image_iff)
      with True Cons.prems(2)[of r] show ?thesis by simp
    next
      case False
      with Cons show ?thesis by simp
    qed
  qed
  show ?thesis
  proof
    fix p' assume "p' \<in> set (products d')"
    then obtain p where p: "p \<in> set (products d)"
      and p': "p' = p\<lparr>p_stock := p_stock p
                  - sum_list (map req_quantity (filter (\<lambda>r. req_productId r = p_id p) its))\<rparr>"
      using createOrder_stock_after[OF assms(1,4)] by auto
    have "sum_list (map req_quantity (filter (\<lambda>r. req_productId r = p_id p) its)) \<le> p_stock p"
      using covered[OF _ p] assms(3) p by (intro single) auto
    with p' show "0 \<le> p_stock p'" by simp
  qed
qed

lemmas shop_defs = shop_def gems_def pass_def gemsOrder_def shopAfterOrder_def priceChange_def
  refundedShop_def

lemmas createOrder_defs = createOrder_def productMap_def validateOrder_def
      validateOrderItem_def validStatuses_def Let_def findById_def

section \<open>Lemmas on the category tree\<close>

lemma childrenOf_iff:
  "k \<in> set (childrenOf cats parent) \<longleftrightarrow> (\<exists>c\<in>set cats. c_id c = k \<and> c_parentId c = Some parent)"
  unfolding childrenOf_def by auto

lemma descendants_of_child:
  assumes "x \<in> descendants cats k" and "k \<in> set (childrenOf cats anc)"
  shows "x \<in> descendants cats anc"
  using assms(1)
proof (induction rule: descendants.induct)
  case (child c)
  from assms(2) have "k \<in> descendants cats anc"
    by (auto simp: childrenOf_iff intro: descendants.child)
  with child show ?case by (auto intro: descendants.step)
next
  case (step j c)
  then show ?case by (auto intro: descendants.step)
qed

lemma descendants_unfold:
  "descendants cats anc =
     set (childrenOf cats anc) \<union> (\<Union>k\<in>set (childrenOf cats anc). descendants cats k)"
proof (intro set_eqI iffI)
  fix x
  assume "x \<in> descendants cats anc"
  then show "x \<in> set (childrenOf cats anc) \<union> (\<Union>k\<in>set (childrenOf cats anc). descendants cats k)"
  proof (induction rule: descendants.induct)
    case (child c)
    then show ?case by (auto simp: childrenOf_iff)
  next
    case (step j c)
    from step.IH show ?case
    proof
      assume "j \<in> set (childrenOf cats anc)"
      moreover from step.hyps have "c_id c \<in> descendants cats j" by (auto intro: descendants.child)
      ultimately show ?thesis by blast
    next
      assume "j \<in> (\<Union>k\<in>set (childrenOf cats anc). descendants cats k)"
      then obtain k where k: "k \<in> set (childrenOf cats anc)" "j \<in> descendants cats k" by blast
      from k(2) step.hyps have "c_id c \<in> descendants cats k" by (auto intro: descendants.step)
      with k(1) show ?thesis by blast
    qed
  qed
next
  fix x
  assume "x \<in> set (childrenOf cats anc) \<union> (\<Union>k\<in>set (childrenOf cats anc). descendants cats k)"
  then show "x \<in> descendants cats anc"
    by (auto simp: childrenOf_iff intro: descendants.child descendants_of_child[unfolded childrenOf_iff])
qed

lemma collectChildren_set:
  assumes "collectChildren recur cs ids = Some out"
    and "\<And>k ds. k \<in> set cs \<Longrightarrow> recur k = Some ds \<Longrightarrow> set ds = D k"
  shows "set out = set ids \<union> set cs \<union> (\<Union>k\<in>set cs. D k)"
  using assms
proof (induction cs arbitrary: ids)
  case Nil
  then show ?case by simp
next
  case (Cons k cs)
  from Cons.prems(1) obtain ds where ds: "recur k = Some ds"
    and rest: "collectChildren recur cs ((ids @ [k]) @ ds) = Some out"
    by (auto split: option.splits)
  from Cons.prems(2)[OF _ ds] have dk: "set ds = D k" by simp
  from Cons.IH[OF rest] Cons.prems(2)
  have "set out = set ((ids @ [k]) @ ds) \<union> set cs \<union> (\<Union>k\<in>set cs. D k)" by simp
  with dk show ?case by auto
qed

lemma getAllDescendantIds_set:
  "getAllDescendantIds depth cats anc = Some ids \<Longrightarrow> set ids = descendants cats anc"
proof (induction depth arbitrary: anc ids)
  case 0
  then show ?case by simp
next
  case (Suc depth)
  from Suc.prems have
    "collectChildren (getAllDescendantIds depth cats) (childrenOf cats anc) [] = Some ids" by simp
  from collectChildren_set[OF this, of "descendants cats"] Suc.IH
  have "set ids = set (childrenOf cats anc) \<union> (\<Union>k\<in>set (childrenOf cats anc). descendants cats k)"
    by simp
  then show ?case by (simp add: descendants_unfold[symmetric])
qed

lemma collectChildren_Some:
  "(\<And>k. k \<in> set cs \<Longrightarrow> recur k \<noteq> None) \<Longrightarrow> collectChildren recur cs ids \<noteq> None"
  by (induction cs arbitrary: ids) (auto split: option.splits)

lemma collectChildren_cong:
  "(\<And>k. k \<in> set cs \<Longrightarrow> f k = g k) \<Longrightarrow> collectChildren f cs ids = collectChildren g cs ids"
  by (induction cs arbitrary: ids) (auto split: option.splits)

lemma collectChildren_all_Some:
  "collectChildren recur cs ids = Some out \<Longrightarrow> k \<in> set cs \<Longrightarrow> recur k \<noteq> None"
  by (induction cs arbitrary: ids) (auto split: option.splits)

lemma getAllDescendantIds_mono:
  "getAllDescendantIds depth cats anc = Some ids \<Longrightarrow>
   getAllDescendantIds (depth + extra) cats anc = Some ids"
proof (induction depth arbitrary: anc ids)
  case 0
  then show ?case by simp
next
  case (Suc depth)
  let ?cs = "childrenOf cats anc"
  from Suc.prems have c: "collectChildren (getAllDescendantIds depth cats) ?cs [] = Some ids"
    by simp
  have "collectChildren (getAllDescendantIds (depth + extra) cats) ?cs []
          = collectChildren (getAllDescendantIds depth cats) ?cs []"
  proof (rule collectChildren_cong)
    fix k assume "k \<in> set ?cs"
    with c have "getAllDescendantIds depth cats k \<noteq> None" by (rule collectChildren_all_Some)
    then obtain ds where "getAllDescendantIds depth cats k = Some ds" by blast
    with Suc.IH[OF this] show "getAllDescendantIds (depth + extra) cats k = getAllDescendantIds depth cats k"
      by simp
  qed
  with c show ?case by simp
qed

lemma getAllDescendantIds_le:
  "getAllDescendantIds n cats anc \<noteq> None \<Longrightarrow> n \<le> m \<Longrightarrow> getAllDescendantIds m cats anc \<noteq> None"
  using getAllDescendantIds_mono[of n cats anc _ "m - n"] by fastforce

lemma uniform_depth:
  "(\<And>k. k \<in> set ks \<Longrightarrow> \<exists>n. getAllDescendantIds n cats k \<noteq> None) \<Longrightarrow>
   \<exists>n. \<forall>k\<in>set ks. getAllDescendantIds n cats k \<noteq> None"
proof (induction ks)
  case Nil
  then show ?case by simp
next
  case (Cons k ks)
  from Cons.prems[of k] obtain n where n: "getAllDescendantIds n cats k \<noteq> None" by auto
  have "\<exists>m. \<forall>j\<in>set ks. getAllDescendantIds m cats j \<noteq> None"
    by (rule Cons.IH) (rule Cons.prems, simp)
  then obtain m where m: "\<forall>j\<in>set ks. getAllDescendantIds m cats j \<noteq> None" ..
  have "\<forall>j\<in>set (k # ks). getAllDescendantIds (max n m) cats j \<noteq> None"
  proof
    fix j assume "j \<in> set (k # ks)"
    then consider "j = k" | "j \<in> set ks" by auto
    then show "getAllDescendantIds (max n m) cats j \<noteq> None"
    proof cases
      case 1
      have "getAllDescendantIds (max n m) cats k \<noteq> None"
        by (rule getAllDescendantIds_le[OF n]) simp
      with 1 show ?thesis by simp
    next
      case 2
      with m have j: "getAllDescendantIds m cats j \<noteq> None" by blast
      show ?thesis by (rule getAllDescendantIds_le[OF j]) simp
    qed
  qed
  then show ?case ..
qed

lemma parentRel_iff:
  "(k, p) \<in> parentRel cats \<longleftrightarrow> (\<exists>c\<in>set cats. c_id c = k \<and> c_parentId c = Some p)"
  unfolding parentRel_def by (force simp: map_filter_def image_iff)

lemma getAllDescendantIds_terminates:
  assumes "acyclic (parentRel cats)"
  shows "\<exists>depth. getAllDescendantIds depth cats anc \<noteq> None"
proof -
  have "finite (parentRel cats)" by (simp add: parentRel_def)
  with assms have "wf (parentRel cats)" by (simp add: finite_acyclic_wf)
  then show ?thesis
  proof (induction anc rule: wf_induct_rule)
    case (less anc)
    have "\<And>k. k \<in> set (childrenOf cats anc) \<Longrightarrow> \<exists>n. getAllDescendantIds n cats k \<noteq> None"
      using less.IH by (auto simp: childrenOf_iff parentRel_iff)
    then obtain n where "\<forall>k\<in>set (childrenOf cats anc). getAllDescendantIds n cats k \<noteq> None"
      using uniform_depth by blast
    then have "getAllDescendantIds (Suc n) cats anc \<noteq> None"
      by (simp add: collectChildren_Some)
    then show ?case ..
  qed
qed

lemma catalog_acyclic: "acyclic (parentRel catalog)"
proof -
  have "parentRel catalog = {(ObjectId 2, ObjectId 1), (ObjectId 3, ObjectId 2)}"
    by (simp add: parentRel_def map_filter_def catalog_def)
  moreover have "(ObjectId 2, ObjectId 3) \<notin> {}\<^sup>*" by simp
  moreover have "(ObjectId 1, ObjectId 2) \<notin> {(ObjectId 3, ObjectId 2)}\<^sup>*"
    by (auto elim: converse_rtranclE)
  moreover have "acyclic ({} :: (oid \<times> oid) set)" by (simp add: acyclic_def)
  ultimately show ?thesis by (simp add: acyclic_insert)
qed

section \<open>Lemmas on the review query and the payload loop\<close>

lemmas createReview_defs = createReview_def Order_findOne_def findById_def validateReview_def
  authorNameOf_def Let_def

lemmas review_defs = completedShop_def buyer_def stranger_def gemsReview_def


lemma Order_findOne_nonstrict_userId:
  "(''userId'', v) \<in> set flt \<Longrightarrow> v \<noteq> QNull \<Longrightarrow> Order_findOne False flt docs = None"
proof -
  assume a: "(''userId'', v) \<in> set flt" and b: "v \<noteq> QNull"
  have "\<And>x. \<not> matchesCondition False x (''userId'', v)" using b by simp
  with a have "\<And>x. \<not> list_all (matchesCondition False x) flt"
    unfolding list_all_iff by blast
  then show ?thesis by (simp add: Order_findOne_def find_None_iff)
qed

lemma createReview_nonstrict_never_created:
  "fst (createReview False d newId usr rq) \<noteq> ReviewCreated r"
proof -
  have "\<And>orderId productId.
     Order_findOne False
       [(''_id'', QId orderId), (''userId'', QId (usr_id usr)),
        (''status'', QStr ''completed''), (''items.productId'', QId productId)] (orders d) = None"
    by (rule Order_findOne_nonstrict_userId[where v="QId (usr_id usr)"]) simp_all
  then show ?thesis
    by (auto simp: createReview_def split: option.splits)
qed

lemma Order_findOne_strict_eligibility:
  "Order_findOne True
       [(''_id'', QId orderId), (''userId'', QId userId),
        (''status'', QStr ''completed''), (''items.productId'', QId productId)] docs
   = find (\<lambda>x. o_id x = orderId \<and> o_status x = ''completed''
               \<and> productId \<in> i_productId ` set (o_items x)) docs"
  unfolding Order_findOne_def
  by (rule arg_cong[where f="\<lambda>P. find P docs"]) (auto simp: fun_eq_iff)

lemma dataToCheckLoop_eq:
  "dataToCheckLoop params acc
   = acc @ map (\<lambda>(key, v). key @ ''='' @ v) (filter (\<lambda>(key, v). key \<noteq> ''hash'') params)"
  by (induction params acc rule: dataToCheckLoop.induct) auto

section \<open>HMAC-SHA256 on the example payload\<close>

text \<open>
  The test vectors of FIPS 180-4 and of RFC 4231 (test case 2), and the four digests of
  the example payload.
\<close>

lemma sha256_abc:
  "hexEncode (sha256 ''abc'') = ''ba7816bf8f01cfea414140de5dae2223b00361a396177a9cb410ff61f20015ad''"
  by code_simp

lemma hmacSha256_rfc4231:
  "hexEncode (hmacSha256 ''Jefe'' ''what do ya want for nothing?'')
   = ''5bdcc146bf60754e6a042426089575c75a003f089d2739839dec58b964ec3843''"
  by code_simp

lemma derivedSecret_eq: "hmacSha256 ''WebAppData'' exampleToken = derivedSecret"
  by code_simp

lemma payloadHash_eq: "hexEncode (hmacSha256 derivedSecret payloadData) = payloadHash"
  by code_simp

lemma swappedSecret_eq: "hmacSha256 exampleToken ''WebAppData'' = swappedSecret"
  by code_simp

lemma swappedHash_eq: "hexEncode (hmacSha256 swappedSecret payloadData) = swappedHash"
  by code_simp

lemma signedPayload_data:
  "join [CHR 0x0A]
     (sort (map (\<lambda>(key, v). key @ ''='' @ v)
              (filter (\<lambda>(key, v). key \<noteq> ''hash'') signedPayload)))
   = payloadData"
  by code_simp

lemma signedPayload_loop:
  "join [CHR 0x0A] (sort (dataToCheckLoop signedPayload [])) = payloadData"
  by code_simp

lemma signedPayload_data_by_key:
  "join [CHR 0x0A]
     (map (\<lambda>(key, v). key @ ''='' @ v)
        (sort_key fst (filter (\<lambda>(key, v). key \<noteq> ''hash'') signedPayload)))
   = payloadData"
  by code_simp

lemma signedPayload_hash: "map_of signedPayload ''hash'' = Some payloadHash"
  by (simp add: signedPayload_def)

lemma payloadHash_nonempty: "payloadHash \<noteq> []"
  by (simp add: payloadHash_def)

lemma swappedHash_differs: "swappedHash \<noteq> payloadHash"
  by (simp add: swappedHash_def payloadHash_def)

section \<open>Order placement\<close>

text \<open>
  C1. Claim: after a createOrder call that runs alone, every product's stock is
  non-negative, also when one product id occurs in several lines of the request. The code
  checks each line against the stock read before the loop and then decrements once per
  line: with a stock of 5 and two lines of 3 units of the same product the order is
  created and the stock ends at -1. (When no two lines name the same product the stock
  stays non-negative: createOrder_distinct_lines_nonnegative.)
\<close>

theorem createOrder_duplicate_lines_overdraw:
  "createOrder shop (ObjectId 100) (ObjectId 21)
     [\<lparr>req_productId = ObjectId 10, req_quantity = 3\<rparr>,
      \<lparr>req_productId = ObjectId 10, req_quantity = 3\<rparr>] None
   = (OrderCreated
        \<lparr>o_id = ObjectId 100, o_user = ObjectId 21,
         o_items = [\<lparr>i_productId = ObjectId 10, i_name = ''Gems'', i_quantity = 3,
                      i_price = 10, i_image = []\<rparr>,
                    \<lparr>i_productId = ObjectId 10, i_name = ''Gems'', i_quantity = 3,
                      i_price = 10, i_image = []\<rparr>],
         o_totalAmount = 60, o_status = ''paid-pending'', o_screenshotPath = None,
         o_reviewSubmitted = False\<rparr>,
      shop\<lparr>products := [gems\<lparr>p_stock := - 1\<rparr>, pass],
           orders := [\<lparr>o_id = ObjectId 100, o_user = ObjectId 21,
         o_items = [\<lparr>i_productId = ObjectId 10, i_name = ''Gems'', i_quantity = 3,
                      i_price = 10, i_image = []\<rparr>,
                    \<lparr>i_productId = ObjectId 10, i_name = ''Gems'', i_quantity = 3,
                      i_price = 10, i_image = []\<rparr>],
         o_totalAmount = 60, o_status = ''paid-pending'', o_screenshotPath = None,
         o_reviewSubmitted = False\<rparr>]\<rparr>)"
  by (simp add: createOrder_def shop_def gems_def pass_def productMap_def validateOrder_def
      validateOrderItem_def validStatuses_def Let_def)




text \<open>
  C8. The ids of the stored products are distinct. When createOrder creates an order, its
  totalAmount is the sum over its lines of price times quantity; the lines are those of the
  request, in order, each with the name, price and image of the product as stored when
  createOrder was called; the order is appended to the orders; and no sequence of later
  updateProduct calls, which is how a price changes, alters the stored orders.
\<close>

theorem createOrder_total_snapshot:
  assumes "distinct (map p_id (products d))"
    and "createOrder d newId userId its screenshotPath = (OrderCreated ord, d')"
  shows "o_totalAmount ord = sum_list (map (\<lambda>it. i_price it * i_quantity it) (o_items ord))
       \<and> list_all2 (\<lambda>r it. i_productId it = req_productId r \<and> i_quantity it = req_quantity r
             \<and> (\<exists>p. findById p_id (products d) (req_productId r) = Some p
                    \<and> i_price it = p_price p \<and> i_name it = p_name p \<and> i_image it = p_image p))
           its (o_items ord)
       \<and> orders d' = orders d @ [ord]
       \<and> (\<forall>us. orders (fold (\<lambda>(k, u) s. snd (updateProduct s k u)) us d') = orders d @ [ord])"
proof -
  let ?pm = "productMap (filter (\<lambda>p. p_id p \<in> set (map req_productId its)) (products d))"
  have pm: "\<And>x. x \<in> set its \<Longrightarrow> ?pm (req_productId x) = findById p_id (products d) (req_productId x)"
    using assms(1) by (rule createOrder_lookup)
  from assms(2) have ne: "its \<noteq> []"
    by (auto simp: createOrder_def split: if_splits)
  from assms(2) ne obtain total orderItems where
    v: "validateItems ?pm its 0 [] = Inr (total, orderItems)"
    by (cases "validateItems ?pm its 0 []") (auto simp: createOrder_def dest: validateItems_Inl)
  from assms(2) ne v have ord: "o_items ord = orderItems" "o_totalAmount ord = total"
    and d': "orders d' = orders d @ [ord]"
    by (auto simp: createOrder_def Let_def split: if_splits)
  from validateItems_Inr[OF v] have
    total: "total = sum_list (map (\<lambda>it. i_price it * i_quantity it) orderItems)"
    and snap: "list_all2 (\<lambda>r it. \<exists>p. ?pm (req_productId r) = Some p \<and> req_quantity r \<le> p_stock p
             \<and> it = \<lparr>i_productId = p_id p, i_name = p_name p, i_quantity = req_quantity r,
                      i_price = p_price p, i_image = p_image p\<rparr>) its orderItems"
    by auto
  have "list_all2 (\<lambda>r it. i_productId it = req_productId r \<and> i_quantity it = req_quantity r
             \<and> (\<exists>p. findById p_id (products d) (req_productId r) = Some p
                    \<and> i_price it = p_price p \<and> i_name it = p_name p \<and> i_image it = p_image p))
           its orderItems"
  proof (rule list.rel_mono_strong[OF snap])
    fix r it
    assume r: "r \<in> set its" and "it \<in> set orderItems"
      and "\<exists>p. ?pm (req_productId r) = Some p \<and> req_quantity r \<le> p_stock p
             \<and> it = \<lparr>i_productId = p_id p, i_name = p_name p, i_quantity = req_quantity r,
                      i_price = p_price p, i_image = p_image p\<rparr>"
    then obtain p where p: "?pm (req_productId r) = Some p"
      "it = \<lparr>i_productId = p_id p, i_name = p_name p, i_quantity = req_quantity r,
                      i_price = p_price p, i_image = p_image p\<rparr>" by blast
    from p(1) have "p_id p = req_productId r" using productMap_Some by fastforce
    moreover from p(1) pm[OF r] have "findById p_id (products d) (req_productId r) = Some p" by simp
    ultimately show "i_productId it = req_productId r \<and> i_quantity it = req_quantity r
             \<and> (\<exists>p. findById p_id (products d) (req_productId r) = Some p
                    \<and> i_price it = p_price p \<and> i_name it = p_name p \<and> i_image it = p_image p)"
      using p(2) by simp
  qed
  with total ord d' show ?thesis by (simp add: updateProducts_orders)
qed

theorem createOrder_total_snapshot_witness:
  "distinct (map p_id (products shop))
   \<and> createOrder shop (ObjectId 100) (ObjectId 21)
        [\<lparr>req_productId = ObjectId 10, req_quantity = 2\<rparr>] None
      = (OrderCreated gemsOrder, shopAfterOrder)
   \<and> o_totalAmount gemsOrder = 10 * 2
   \<and> fst (updateProduct shopAfterOrder (ObjectId 10) priceChange)
        = ProductUpdated (gems\<lparr>p_stock := 3, p_price := 12\<rparr>)
   \<and> orders (snd (updateProduct shopAfterOrder (ObjectId 10) priceChange)) = [gemsOrder]"
proof -
  have h1: "distinct (map p_id (products shop))" by (simp add: shop_defs)
  have h2: "createOrder shop (ObjectId 100) (ObjectId 21)
        [\<lparr>req_productId = ObjectId 10, req_quantity = 2\<rparr>] None
      = (OrderCreated gemsOrder, shopAfterOrder)"
    by (simp add: shop_defs createOrder_defs)
  have h3: "fst (updateProduct shopAfterOrder (ObjectId 10) priceChange)
        = ProductUpdated (gems\<lparr>p_stock := 3, p_price := 12\<rparr>)"
    by (simp add: shop_defs updateProduct_def findById_def missingCategory_def assignFields_def
        validateProduct_def Let_def)
  from createOrder_total_snapshot[OF h1 h2]
  have t: "o_totalAmount gemsOrder = sum_list (map (\<lambda>it. i_price it * i_quantity it) (o_items gemsOrder))"
    and u: "\<forall>us. orders (fold (\<lambda>(k, u) s. snd (updateProduct s k u)) us shopAfterOrder)
              = orders shop @ [gemsOrder]"
    by blast+
  from t have t': "o_totalAmount gemsOrder = 10 * 2" by (simp add: gemsOrder_def)
  from u[rule_format, of "[(ObjectId 10, priceChange)]"]
  have "orders (snd (updateProduct shopAfterOrder (ObjectId 10) priceChange)) = [gemsOrder]"
    by (simp add: shop_def)
  with h1 h2 h3 t' show ?thesis by blast
qed

section \<open>Status transitions\<close>

text \<open>
  C6. The ids of the stored products are distinct and the order exists. Setting the status
  to refunded when it was not refunded adds to the stock of every product the quantity of
  every line of the order that names it, once per line (a product named by one line gains
  exactly that line's quantity); setting it to refunded when it was already refunded
  leaves the products as they are, and so does repeating the transition.
\<close>

theorem updateOrderStatus_refund_restock:
  assumes "distinct (map p_id (products d))"
    and "findById o_id (orders d) orderId = Some ord"
  shows "(o_status ord \<noteq> ''refunded'' \<longrightarrow>
            products (snd (updateOrderStatus d orderId ''refunded''))
              = map (\<lambda>p. p\<lparr>p_stock := p_stock p + orderedQuantity (o_items ord) (p_id p)\<rparr>)
                  (products d))
       \<and> (o_status ord = ''refunded'' \<longrightarrow>
            products (snd (updateOrderStatus d orderId ''refunded'')) = products d)
       \<and> products (snd (updateOrderStatus (snd (updateOrderStatus d orderId ''refunded''))
                          orderId ''refunded''))
           = products (snd (updateOrderStatus d orderId ''refunded''))"
proof -
  let ?d1 = "snd (updateOrderStatus d orderId ''refunded'')"
  let ?ord1 = "ord\<lparr>o_status := ''refunded''\<rparr>"
  have oid: "o_id ord = orderId" using assms(2) findById_Some by fastforce
  have valid: "''refunded'' \<in> set validStatuses" by (simp add: validStatuses_def)
  have a: "o_status ord \<noteq> ''refunded'' \<Longrightarrow>
            products ?d1 = map (\<lambda>p. p\<lparr>p_stock := p_stock p + orderedQuantity (o_items ord) (p_id p)\<rparr>)
                  (products d)"
    using assms valid by (simp add: updateOrderStatus_def Let_def restock_map)
  have b: "o_status ord = ''refunded'' \<Longrightarrow> products ?d1 = products d"
    using assms(2) valid by (simp add: updateOrderStatus_def Let_def)
  have "orders ?d1 = saveOrder ?ord1 (orders d)"
    using assms(2) valid by (simp add: updateOrderStatus_def Let_def)
  moreover have "findById o_id (saveOrder ?ord1 (orders d)) (o_id ?ord1) = Some ?ord1"
    using assms(2) oid by (intro saveOrder_find[where y=ord]) simp
  ultimately have f: "findById o_id (orders ?d1) orderId = Some ?ord1" using oid by simp
  have c: "products (snd (updateOrderStatus ?d1 orderId ''refunded'')) = products ?d1"
    using f valid by (simp add: updateOrderStatus_def[of ?d1] Let_def)
  from a b c show ?thesis by blast
qed

theorem updateOrderStatus_refund_restock_witness:
  "distinct (map p_id (products shopAfterOrder))
   \<and> findById o_id (orders shopAfterOrder) (ObjectId 100) = Some gemsOrder
   \<and> o_status gemsOrder \<noteq> ''refunded''
   \<and> products shopAfterOrder = [gems\<lparr>p_stock := 3\<rparr>, pass]
   \<and> products (snd (updateOrderStatus shopAfterOrder (ObjectId 100) ''refunded''))
        = [gems\<lparr>p_stock := 5\<rparr>, pass]
   \<and> products (snd (updateOrderStatus
          (snd (updateOrderStatus shopAfterOrder (ObjectId 100) ''refunded''))
          (ObjectId 100) ''refunded''))
        = [gems\<lparr>p_stock := 5\<rparr>, pass]
   \<and> findById o_id (orders refundedShop) (ObjectId 100)
        = Some (gemsOrder\<lparr>o_status := ''refunded''\<rparr>)
   \<and> products (snd (updateOrderStatus refundedShop (ObjectId 100) ''refunded''))
        = products refundedShop"
proof -
  have h1: "distinct (map p_id (products shopAfterOrder))" by (simp add: shop_defs)
  have h2: "findById o_id (orders shopAfterOrder) (ObjectId 100) = Some gemsOrder"
    by (simp add: shop_defs findById_def)
  have h3: "o_status gemsOrder \<noteq> ''refunded''" by (simp add: gemsOrder_def)
  have h4: "products shopAfterOrder = [gems\<lparr>p_stock := 3\<rparr>, pass]" by (simp add: shop_defs)
  have k1: "distinct (map p_id (products refundedShop))" by (simp add: shop_defs)
  have k2: "findById o_id (orders refundedShop) (ObjectId 100)
        = Some (gemsOrder\<lparr>o_status := ''refunded''\<rparr>)"
    by (simp add: shop_defs findById_def)
  note a = updateOrderStatus_refund_restock[OF h1 h2]
  note b = updateOrderStatus_refund_restock[OF k1 k2]
  from a h3 have a1: "products (snd (updateOrderStatus shopAfterOrder (ObjectId 100) ''refunded''))
     = map (\<lambda>p. p\<lparr>p_stock := p_stock p + orderedQuantity (o_items gemsOrder) (p_id p)\<rparr>)
                  (products shopAfterOrder)" by blast
  then have a2: "products (snd (updateOrderStatus shopAfterOrder (ObjectId 100) ''refunded''))
        = [gems\<lparr>p_stock := 5\<rparr>, pass]"
    by (simp add: shop_defs orderedQuantity_def)
  from a a2 have a3: "products (snd (updateOrderStatus
          (snd (updateOrderStatus shopAfterOrder (ObjectId 100) ''refunded''))
          (ObjectId 100) ''refunded''))
        = [gems\<lparr>p_stock := 5\<rparr>, pass]" by simp
  from b have b1: "products (snd (updateOrderStatus refundedShop (ObjectId 100) ''refunded''))
        = products refundedShop" by simp
  from h1 h2 h3 h4 a2 a3 k2 b1 show ?thesis by blast
qed

text \<open>
  C10. For an order whose status is refunded and a new status of the list other than
  refunded, updateOrderStatus stores the order with the new status and changes nothing
  else: no product is touched. Setting the status back to refunded afterwards adds the
  quantity of every line to its product's stock again.
\<close>

theorem updateOrderStatus_leave_refunded:
  assumes "distinct (map p_id (products d))"
    and "findById o_id (orders d) orderId = Some ord"
    and "o_status ord = ''refunded''"
    and "newStatus \<in> set validStatuses" and "newStatus \<noteq> ''refunded''"
  shows "updateOrderStatus d orderId newStatus
           = (StatusUpdated (ord\<lparr>o_status := newStatus\<rparr>),
              d\<lparr>orders := saveOrder (ord\<lparr>o_status := newStatus\<rparr>) (orders d)\<rparr>)
       \<and> products (snd (updateOrderStatus (snd (updateOrderStatus d orderId newStatus))
                          orderId ''refunded''))
           = map (\<lambda>p. p\<lparr>p_stock := p_stock p + orderedQuantity (o_items ord) (p_id p)\<rparr>)
               (products d)"
proof -
  let ?ord1 = "ord\<lparr>o_status := newStatus\<rparr>"
  let ?d1 = "d\<lparr>orders := saveOrder ?ord1 (orders d)\<rparr>"
  have oid: "o_id ord = orderId" using assms(2) findById_Some by fastforce
  have ne: "newStatus \<noteq> []" using assms(4) by (auto simp: validStatuses_def)
  have valid: "''refunded'' \<in> set validStatuses" by (simp add: validStatuses_def)
  have a: "updateOrderStatus d orderId newStatus = (StatusUpdated ?ord1, ?d1)"
    using assms(2-5) ne by (simp add: updateOrderStatus_def Let_def)
  have "findById o_id (saveOrder ?ord1 (orders d)) (o_id ?ord1) = Some ?ord1"
    using assms(2) oid by (intro saveOrder_find[where y=ord]) simp
  then have f: "findById o_id (orders ?d1) orderId = Some ?ord1" using oid by simp
  have "products (snd (updateOrderStatus ?d1 orderId ''refunded''))
          = restock (o_items ?ord1) (products ?d1)"
    using f valid assms(5) by (simp add: updateOrderStatus_def[of ?d1] Let_def)
  also have "\<dots> = map (\<lambda>p. p\<lparr>p_stock := p_stock p + orderedQuantity (o_items ord) (p_id p)\<rparr>)
               (products d)"
    using assms(1) by (simp add: restock_map)
  finally show ?thesis using a by simp
qed

theorem updateOrderStatus_leave_refunded_witness:
  "distinct (map p_id (products refundedShop))
   \<and> findById o_id (orders refundedShop) (ObjectId 100)
        = Some (gemsOrder\<lparr>o_status := ''refunded''\<rparr>)
   \<and> ''processing'' \<in> set validStatuses
   \<and> updateOrderStatus refundedShop (ObjectId 100) ''processing''
        = (StatusUpdated (gemsOrder\<lparr>o_status := ''processing''\<rparr>),
           refundedShop\<lparr>orders := [gemsOrder\<lparr>o_status := ''processing''\<rparr>]\<rparr>)
   \<and> products refundedShop = [gems, pass]
   \<and> products (snd (updateOrderStatus
          (snd (updateOrderStatus refundedShop (ObjectId 100) ''processing''))
          (ObjectId 100) ''refunded''))
        = [gems\<lparr>p_stock := 7\<rparr>, pass]"
proof -
  have k1: "distinct (map p_id (products refundedShop))" by (simp add: shop_defs)
  have k2: "findById o_id (orders refundedShop) (ObjectId 100)
        = Some (gemsOrder\<lparr>o_status := ''refunded''\<rparr>)"
    by (simp add: shop_defs findById_def)
  have k3: "o_status (gemsOrder\<lparr>o_status := ''refunded''\<rparr>) = ''refunded''" by simp
  have k4: "''processing'' \<in> set validStatuses" by (simp add: validStatuses_def)
  have k5: "''processing'' \<noteq> ''refunded''" by simp
  have k6: "products refundedShop = [gems, pass]" by (simp add: shop_defs)
  note a = updateOrderStatus_leave_refunded[OF k1 k2 k3 k4 k5]
  have e1: "(StatusUpdated (gemsOrder\<lparr>o_status := ''refunded''\<rparr>\<lparr>o_status := ''processing''\<rparr>),
      refundedShop\<lparr>orders := saveOrder (gemsOrder\<lparr>o_status := ''refunded''\<rparr>\<lparr>o_status := ''processing''\<rparr>)
         (orders refundedShop)\<rparr>)
     = (StatusUpdated (gemsOrder\<lparr>o_status := ''processing''\<rparr>),
           refundedShop\<lparr>orders := [gemsOrder\<lparr>o_status := ''processing''\<rparr>]\<rparr>)"
    by (simp add: shop_defs)
  have e2: "map (\<lambda>p. p\<lparr>p_stock := p_stock p
                + orderedQuantity (o_items (gemsOrder\<lparr>o_status := ''refunded''\<rparr>)) (p_id p)\<rparr>)
               (products refundedShop) = [gems\<lparr>p_stock := 7\<rparr>, pass]"
    by (simp add: shop_defs orderedQuantity_def)
  from a[THEN conjunct1] e1 have a1: "updateOrderStatus refundedShop (ObjectId 100) ''processing''
        = (StatusUpdated (gemsOrder\<lparr>o_status := ''processing''\<rparr>),
           refundedShop\<lparr>orders := [gemsOrder\<lparr>o_status := ''processing''\<rparr>]\<rparr>)"
    by (simp only:)
  from a[THEN conjunct2] e2 have a2: "products (snd (updateOrderStatus
          (snd (updateOrderStatus refundedShop (ObjectId 100) ''processing''))
          (ObjectId 100) ''refunded''))
        = [gems\<lparr>p_stock := 7\<rparr>, pass]"
    by (simp only:)
  from k1 k2 k4 k6 a1 a2 show ?thesis by blast
qed

section \<open>Category hierarchy\<close>

text \<open>
  C9. isDescendant of a category id and the same id returns true, whatever the stored
  categories are; and for a stored category \<open>r\<close> whose parentId is null and any other id
  \<open>a\<close>, isDescendant of \<open>r\<close> and \<open>a\<close> returns false: the walk stops at the root.
\<close>

theorem isDescendant_self_and_root:
  "isDescendant cats (Some c) c = Some True
   \<and> (findById c_id cats r = Some rc \<and> c_parentId rc = None \<and> a \<noteq> r
        \<longrightarrow> isDescendant cats (Some r) a = Some False)"
proof
  show "isDescendant cats (Some c) c = Some True"
    by (subst isDescendant.simps) simp
  show "findById c_id cats r = Some rc \<and> c_parentId rc = None \<and> a \<noteq> r
        \<longrightarrow> isDescendant cats (Some r) a = Some False"
  proof
    assume h: "findById c_id cats r = Some rc \<and> c_parentId rc = None \<and> a \<noteq> r"
    then show "isDescendant cats (Some r) a = Some False"
      by (subst isDescendant.simps) auto
  qed
qed

theorem isDescendant_self_and_root_witness:
  "isDescendant catalog (Some (ObjectId 2)) (ObjectId 2) = Some True
   \<and> findById c_id catalog (ObjectId 1)
        = Some \<lparr>c_id = ObjectId 1, c_name = ''Brawl'', c_parentId = None\<rparr>
   \<and> isDescendant catalog (Some (ObjectId 1)) (ObjectId 2) = Some False"
proof -
  let ?rootc = "\<lparr>c_id = ObjectId 1, c_name = ''Brawl'', c_parentId = None\<rparr>"
  have h1: "findById c_id catalog (ObjectId 1) = Some ?rootc"
    by (simp add: catalog_def findById_def)
  have h2: "c_parentId ?rootc = None" by simp
  have h3: "ObjectId 2 \<noteq> ObjectId 1" by simp
  from isDescendant_self_and_root[of catalog "ObjectId 2" "ObjectId 1" ?rootc "ObjectId 2"] h1 h2 h3
  show ?thesis by blast
qed

text \<open>
  C7. The category exists. When the parent relation of the stored categories has no cycle
  (the invariant of the data model), deleteCategory returns, with a recursion deep enough.
  Whenever it returns, the store it leaves holds exactly the products whose categoryId is
  outside the category and its descendants and exactly the categories outside that set,
  unchanged and in their order; orders and reviews are as they were. The response counts
  what was deleted.
\<close>

theorem deleteCategory_cascade:
  assumes "findById c_id (categories d) categoryId = Some category"
  shows "(acyclic (parentRel (categories d)) \<longrightarrow> (\<exists>depth. deleteCategory depth d categoryId \<noteq> None))
       \<and> (\<forall>depth result. deleteCategory depth d categoryId = Some result \<longrightarrow>
            result =
              (CategoryDeleted (c_name category)
                 (int (length (filter (\<lambda>c. c_id c \<in> insert categoryId (descendants (categories d) categoryId))
                                 (categories d))) - 1)
                 (length (filter (\<lambda>p. p_categoryId p \<in> insert categoryId (descendants (categories d) categoryId))
                            (products d))),
               d\<lparr>products :=
                    filter (\<lambda>p. p_categoryId p \<notin> insert categoryId (descendants (categories d) categoryId))
                      (products d),
                 categories :=
                    filter (\<lambda>c. c_id c \<notin> insert categoryId (descendants (categories d) categoryId))
                      (categories d)\<rparr>))"
proof
  show "acyclic (parentRel (categories d)) \<longrightarrow> (\<exists>depth. deleteCategory depth d categoryId \<noteq> None)"
  proof
    assume "acyclic (parentRel (categories d))"
    from getAllDescendantIds_terminates[OF this, of categoryId]
    obtain depth where "getAllDescendantIds depth (categories d) categoryId \<noteq> None" ..
    then have "deleteCategory depth d categoryId \<noteq> None"
      using assms by (auto simp: deleteCategory_def Let_def)
    then show "\<exists>depth. deleteCategory depth d categoryId \<noteq> None" ..
  qed
next
  show "\<forall>depth result. deleteCategory depth d categoryId = Some result \<longrightarrow>
            result =
              (CategoryDeleted (c_name category)
                 (int (length (filter (\<lambda>c. c_id c \<in> insert categoryId (descendants (categories d) categoryId))
                                 (categories d))) - 1)
                 (length (filter (\<lambda>p. p_categoryId p \<in> insert categoryId (descendants (categories d) categoryId))
                            (products d))),
               d\<lparr>products :=
                    filter (\<lambda>p. p_categoryId p \<notin> insert categoryId (descendants (categories d) categoryId))
                      (products d),
                 categories :=
                    filter (\<lambda>c. c_id c \<notin> insert categoryId (descendants (categories d) categoryId))
                      (categories d)\<rparr>)"
  proof (intro allI impI)
    fix depth result
    assume r: "deleteCategory depth d categoryId = Some result"
    then obtain ids where ids: "getAllDescendantIds depth (categories d) categoryId = Some ids"
      using assms by (auto simp: deleteCategory_def split: option.splits)
    then have s: "set ids = descendants (categories d) categoryId"
      by (rule getAllDescendantIds_set)
    from r ids assms s show "result =
              (CategoryDeleted (c_name category)
                 (int (length (filter (\<lambda>c. c_id c \<in> insert categoryId (descendants (categories d) categoryId))
                                 (categories d))) - 1)
                 (length (filter (\<lambda>p. p_categoryId p \<in> insert categoryId (descendants (categories d) categoryId))
                            (products d))),
               d\<lparr>products :=
                    filter (\<lambda>p. p_categoryId p \<notin> insert categoryId (descendants (categories d) categoryId))
                      (products d),
                 categories :=
                    filter (\<lambda>c. c_id c \<notin> insert categoryId (descendants (categories d) categoryId))
                      (categories d)\<rparr>)"
      by (auto simp: deleteCategory_def Let_def)
  qed
qed

theorem deleteCategory_cascade_witness:
  "acyclic (parentRel (categories catalogShop))
   \<and> findById c_id (categories catalogShop) (ObjectId 1)
        = Some \<lparr>c_id = ObjectId 1, c_name = ''Brawl'', c_parentId = None\<rparr>
   \<and> (\<exists>depth. deleteCategory depth catalogShop (ObjectId 1) \<noteq> None)
   \<and> deleteCategory 3 catalogShop (ObjectId 1)
        = Some (CategoryDeleted ''Brawl'' 2 1,
                catalogShop\<lparr>products := [pass],
                  categories := [\<lparr>c_id = ObjectId 4, c_name = ''Clash'', c_parentId = None\<rparr>]\<rparr>)
   \<and> filter (\<lambda>c. c_id c \<notin> insert (ObjectId 1) (descendants (categories catalogShop) (ObjectId 1)))
        (categories catalogShop)
        = [\<lparr>c_id = ObjectId 4, c_name = ''Clash'', c_parentId = None\<rparr>]
   \<and> filter (\<lambda>p. p_categoryId p \<notin> insert (ObjectId 1) (descendants (categories catalogShop) (ObjectId 1)))
        (products catalogShop)
        = [pass]"
proof -
  let ?brawl = "\<lparr>c_id = ObjectId 1, c_name = ''Brawl'', c_parentId = None\<rparr>"
  let ?clash = "\<lparr>c_id = ObjectId 4, c_name = ''Clash'', c_parentId = None\<rparr>"
  let ?D = "insert (ObjectId 1) (descendants (categories catalogShop) (ObjectId 1))"
  have h1: "acyclic (parentRel (categories catalogShop))"
    using catalog_acyclic by (simp add: catalogShop_def)
  have h2: "findById c_id (categories catalogShop) (ObjectId 1) = Some ?brawl"
    by (simp add: catalogShop_def catalog_def findById_def)
  have h3: "deleteCategory 3 catalogShop (ObjectId 1)
        = Some (CategoryDeleted ''Brawl'' 2 1,
                catalogShop\<lparr>products := [pass], categories := [?clash]\<rparr>)"
    by (simp add: deleteCategory_def catalogShop_def catalog_def findById_def childrenOf_def
        shop_defs numeral_3_eq_3 Let_def)
  note main = deleteCategory_cascade[OF h2]
  from main h1 have h4: "\<exists>depth. deleteCategory depth catalogShop (ObjectId 1) \<noteq> None"
    by blast
  from main h3
  have "(CategoryDeleted ''Brawl'' 2 1, catalogShop\<lparr>products := [pass], categories := [?clash]\<rparr>)
      = (CategoryDeleted (c_name ?brawl)
           (int (length (filter (\<lambda>c. c_id c \<in> ?D) (categories catalogShop))) - 1)
           (length (filter (\<lambda>p. p_categoryId p \<in> ?D) (products catalogShop))),
         catalogShop\<lparr>products := filter (\<lambda>p. p_categoryId p \<notin> ?D) (products catalogShop),
           categories := filter (\<lambda>c. c_id c \<notin> ?D) (categories catalogShop)\<rparr>)"
    by blast
  then have "db.products (catalogShop\<lparr>products := [pass], categories := [?clash]\<rparr>)
      = db.products (catalogShop\<lparr>products := filter (\<lambda>p. p_categoryId p \<notin> ?D) (products catalogShop),
           categories := filter (\<lambda>c. c_id c \<notin> ?D) (categories catalogShop)\<rparr>)"
    and "db.categories (catalogShop\<lparr>products := [pass], categories := [?clash]\<rparr>)
      = db.categories (catalogShop\<lparr>products := filter (\<lambda>p. p_categoryId p \<notin> ?D) (products catalogShop),
           categories := filter (\<lambda>c. c_id c \<notin> ?D) (categories catalogShop)\<rparr>)"
    by simp_all
  then have "filter (\<lambda>p. p_categoryId p \<notin> ?D) (products catalogShop) = [pass]"
    and "filter (\<lambda>c. c_id c \<notin> ?D) (categories catalogShop) = [?clash]"
    by simp_all
  with h1 h2 h3 h4 show ?thesis by blast
qed

section \<open>Reviews\<close>

text \<open>
  C2. Claim: createReview fails unless the order belongs to the requester. The filter of
  the eligibility query names the path \<^verbatim>\<open>userId\<close>, which OrderSchema does not have (the owner
  is \<^verbatim>\<open>user\<close>). With strictQuery on, the condition is dropped and another user's completed
  order passes: the review of a user who is not the order's owner is created. With
  strictQuery off, no order ever matches, and the order's owner is refused as well.
\<close>

theorem createReview_owner_not_checked:
  "o_user (gemsOrder\<lparr>o_status := ''completed''\<rparr>) = ObjectId 21
   \<and> createReview True completedShop (ObjectId 200) stranger (gemsReview 5)
      = (ReviewCreated
           \<lparr>r_id = ObjectId 200, r_user = ObjectId 22, r_authorName = ''bob'',
            r_product = ObjectId 10, r_order = ObjectId 100, r_rating = 5, r_text = []\<rparr>,
         completedShop
           \<lparr>reviews := [\<lparr>r_id = ObjectId 200, r_user = ObjectId 22, r_authorName = ''bob'',
                         r_product = ObjectId 10, r_order = ObjectId 100, r_rating = 5,
                         r_text = []\<rparr>],
            orders := [gemsOrder\<lparr>o_status := ''completed'', o_reviewSubmitted := True\<rparr>]\<rparr>)
   \<and> createReview False completedShop (ObjectId 200) buyer (gemsReview 5)
      = (NotEligible, completedShop)"
  by (simp add: createReview_defs review_defs shop_defs)




section \<open>Telegram payload verification\<close>

text \<open>
  C5, as stated: the secret is the HMAC-SHA256 over "WebAppData" keyed by the bot token,
  and the pairs are sorted by key. The code keys the first HMAC with "WebAppData" and feeds
  it the bot token, and it sorts the key=value strings as wholes. The example payload,
  signed the way the code checks, is accepted by the code and fails the check as stated,
  whose secret is another one. And for a keyed function that does not tell key from
  message, a payload with the keys \<open>a\<close> and \<open>a1\<close> is accepted by the code and fails the
  check as stated, since the two orders differ.
\<close>

theorem validateTelegramData_check_counterexample:
  "validateTelegramData hmacSha256 hexEncode signedPayload exampleToken
   \<and> \<not> claimedTelegramCheck hmacSha256 hexEncode signedPayload exampleToken
   \<and> validateTelegramData symmetricPairing id prefixKeyPayload ''T''
   \<and> \<not> claimedTelegramCheck symmetricPairing id prefixKeyPayload ''T''"
proof -
  have 1: "validateTelegramData hmacSha256 hexEncode signedPayload exampleToken"
    unfolding validateTelegramData_def Let_def
    by (simp only: signedPayload_hash option.case payloadHash_nonempty if_False
        signedPayload_loop derivedSecret_eq payloadHash_eq simp_thms)
  have 2: "\<not> claimedTelegramCheck hmacSha256 hexEncode signedPayload exampleToken"
    unfolding claimedTelegramCheck_def Let_def
    by (simp only: signedPayload_hash option.case signedPayload_data_by_key
        swappedSecret_eq swappedHash_eq swappedHash_differs simp_thms)
  have 3: "validateTelegramData symmetricPairing id prefixKeyPayload ''T''
     \<and> \<not> claimedTelegramCheck symmetricPairing id prefixKeyPayload ''T''"
    by code_simp
  from 1 2 3 show ?thesis by blast
qed

text \<open>
  C5, amended. validateTelegramData accepts exactly when the payload has a non-empty hash
  parameter that equals the hex digest of the HMAC, keyed by the secret, of the
  newline-joined list of the key=value strings of all other parameters sorted as whole
  strings, where the secret is the HMAC of the bot token keyed by "WebAppData".
\<close>

theorem validateTelegramData_check:
  "validateTelegramData hmac hexOf params botToken
   \<longleftrightarrow> (\<exists>hash. map_of params ''hash'' = Some hash \<and> hash \<noteq> []
          \<and> hexOf (hmac (hmac ''WebAppData'' botToken)
                (join [CHR 0x0A]
                   (sort (map (\<lambda>(key, v). key @ ''='' @ v)
                            (filter (\<lambda>(key, v). key \<noteq> ''hash'') params)))))
              = hash)"
  by (auto simp: validateTelegramData_def dataToCheckLoop_eq Let_def split: option.splits)

theorem validateTelegramData_check_witness:
  "map_of signedPayload ''hash'' = Some payloadHash
   \<and> payloadHash \<noteq> []
   \<and> hexEncode (hmacSha256 (hmacSha256 ''WebAppData'' exampleToken)
        (join [CHR 0x0A]
           (sort (map (\<lambda>(key, v). key @ ''='' @ v)
                    (filter (\<lambda>(key, v). key \<noteq> ''hash'') signedPayload)))))
       = payloadHash
   \<and> validateTelegramData hmacSha256 hexEncode signedPayload exampleToken"
proof -
  have a: "hexEncode (hmacSha256 (hmacSha256 ''WebAppData'' exampleToken)
        (join [CHR 0x0A]
           (sort (map (\<lambda>(key, v). key @ ''='' @ v)
                    (filter (\<lambda>(key, v). key \<noteq> ''hash'') signedPayload)))))
       = payloadHash"
    by (simp only: signedPayload_data derivedSecret_eq payloadHash_eq)
  from a signedPayload_hash payloadHash_nonempty
    validateTelegramData_check[of hmacSha256 hexEncode signedPayload exampleToken]
  have "validateTelegramData hmacSha256 hexEncode signedPayload exampleToken" by blast
  with a signedPayload_hash payloadHash_nonempty show ?thesis by blast
qed

end
